theory Spec2Isabelle
  imports Complex_Main "HOL-Library.Signed_Division" "HOL-Library.Log_Nat" "HOL-Library.Multiset"
begin

section \<open>Machine integers of the uploader\<close>

text \<open>
  The sizes and counters of \<^verbatim>\<open>main.go\<close> are Go \<^verbatim>\<open>int64\<close> values. They are modelled as
  integers with the two's complement wrap-around written out. Go's \<^verbatim>\<open>/\<close> and \<^verbatim>\<open>%\<close> truncate
  towards zero (\<open>sdiv\<close>, \<open>smod\<close>), and a zero divisor is a run-time panic.
\<close>

definition is_int64 :: "int \<Rightarrow> bool" where
  "is_int64 x = (- (2 ^ 63) \<le> x \<and> x < 2 ^ 63)"

definition wrap64 :: "int \<Rightarrow> int" where
  "wrap64 x = (x + 2 ^ 63) mod 2 ^ 64 - 2 ^ 63"

definition int64_div :: "int \<Rightarrow> int \<Rightarrow> int" where
  "int64_div a b = wrap64 (a sdiv b)"

definition int64_rem :: "int \<Rightarrow> int \<Rightarrow> int" where
  "int64_rem a b = a smod b"

subsection \<open>The part count of \<^verbatim>\<open>uploadFile\<close> (main.go, lines 183 to 186)\<close>

text \<open>
  \<^verbatim>\<open>numParts := fileSize / u.partSize; if fileSize%u.partSize != 0 { numParts++ }\<close>.
  The result is \<open>None\<close> where the division panics.
\<close>

definition numParts :: "int \<Rightarrow> int \<Rightarrow> int option" where
  "numParts fileSize partSize =
     (if partSize = 0 then None
      else let n = int64_div fileSize partSize
           in Some (if int64_rem fileSize partSize \<noteq> 0 then wrap64 (n + 1) else n))"

section \<open>Errors\<close>

text \<open>
  Go \<^verbatim>\<open>error\<close> values. \<open>ErrMsg\<close> is an error made by \<^verbatim>\<open>fmt.Errorf\<close> or \<^verbatim>\<open>errors.New\<close>, or an
  error of the HTTP client, identified by its message; \<open>ErrTransient\<close> is an error that the
  library classifies as a transient network failure; the others are the library errors the
  program meets (\<^verbatim>\<open>io.EOF\<close>, the range and syntax errors of \<^verbatim>\<open>strconv\<close>, the two context errors
  and \<^verbatim>\<open>fs.ErrorDirNotFound\<close>).
\<close>

datatype go_error =
    ErrMsg string
  | ErrEOF
  | ErrRange
  | ErrSyntax
  | ErrCanceled
  | ErrDeadlineExceeded
  | ErrTransient string
  | ErrorDirNotFound

section \<open>The size parser (\<^verbatim>\<open>fileSizeToBytes\<close>)\<close>

subsection \<open>\<^verbatim>\<open>float64\<close> values\<close>

text \<open>
  \<^verbatim>\<open>strconv.ParseFloat\<close> and the \<^verbatim>\<open>float64\<close> product round to the nearest double, ties to
  even. Only non-negative values arise (the numeral has no sign), so a \<^verbatim>\<open>float64\<close> is a
  non-negative rational or \<open>+Inf\<close>. \<open>round64\<close> rounds a rational to 53 significant bits,
  with the exponent of the last bit no smaller than \<open>-1074\<close> (subnormal numbers);
  \<open>ilog2 r\<close> is \<open>\<lfloor>log\<^sub>2 r\<rfloor>\<close> for \<open>r > 0\<close>.
\<close>

definition pow2 :: "int \<Rightarrow> rat" where
  "pow2 k = (if 0 \<le> k then 2 ^ nat k else 1 / 2 ^ nat (- k))"

definition ilog2 :: "rat \<Rightarrow> int" where
  "ilog2 r = (let (p, q) = quotient_of r; k = bitlen p - bitlen q
              in if pow2 k \<le> r then k else k - 1)"

definition round_half_even :: "rat \<Rightarrow> int" where
  "round_half_even x =
     (let f = \<lfloor>x\<rfloor>; d = x - of_int f
      in if d < 1 / 2 then f else if 1 / 2 < d then f + 1 else if even f then f else f + 1)"

definition round64 :: "rat \<Rightarrow> rat" where
  "round64 r =
     (if r \<le> 0 then 0
      else let e = max (ilog2 r - 52) (- 1074)
           in of_int (round_half_even (r / pow2 e)) * pow2 e)"

datatype float64 = Finite rat | PosInf

definition to_float64 :: "rat \<Rightarrow> float64" where
  "to_float64 r = (let x = round64 r in if 2 ^ 1024 \<le> x then PosInf else Finite x)"

fun fmul :: "float64 \<Rightarrow> rat \<Rightarrow> float64" where
  "fmul (Finite x) c = to_float64 (x * c)"
| "fmul PosInf c = PosInf"

text \<open>
  The conversion \<^verbatim>\<open>int64(f)\<close> truncates towards zero. Where the value does not fit, Go leaves
  the result to the implementation; on amd64 it is the smallest \<^verbatim>\<open>int64\<close>.
\<close>

definition int64_indefinite :: int where
  "int64_indefinite = - (2 ^ 63)"

fun float_to_int64 :: "float64 \<Rightarrow> int" where
  "float_to_int64 (Finite x) = (if \<lfloor>x\<rfloor> < 2 ^ 63 then \<lfloor>x\<rfloor> else int64_indefinite)"
| "float_to_int64 PosInf = int64_indefinite"

subsection \<open>The regular expression\<close>

text \<open>
  \<^verbatim>\<open>sizeRegex = (?i)^(\d+(\.\d+)?)\s*([KMGT]B|bytes?)$\<close>, applied to ASCII strings. A unit
  starts with a letter, so the greedy split into digits, an optional fraction and white space is
  the only one that can match; \<open>sizeRegex\<close> returns what \<^verbatim>\<open>FindStringSubmatch\<close> returns: the
  whole match and the three groups (an unmatched group is the empty string), or \<open>None\<close>
  for \<^verbatim>\<open>nil\<close>. \<^verbatim>\<open>strings.ToLower\<close> is modelled on ASCII letters.
\<close>

definition isDigit :: "char \<Rightarrow> bool" where
  "isDigit c = (48 \<le> (of_char c :: nat) \<and> (of_char c :: nat) \<le> 57)"

definition isSpace :: "char \<Rightarrow> bool" where
  "isSpace c = (c = CHR 0x09 \<or> c = CHR 0x0A \<or> c = CHR 0x0C \<or> c = CHR 0x0D \<or> c = CHR '' '')"

definition toLowerChar :: "char \<Rightarrow> char" where
  "toLowerChar c =
     (if 65 \<le> (of_char c :: nat) \<and> (of_char c :: nat) \<le> 90 then char_of (of_char c + 32 :: nat) else c)"

definition ToLower :: "string \<Rightarrow> string" where
  "ToLower s = map toLowerChar s"

definition sizeRegex :: "string \<Rightarrow> string list option" where
  "sizeRegex s =
     (let ds = takeWhile isDigit s; r1 = dropWhile isDigit s
      in if ds = [] then None
         else let fs = (case r1 of [] \<Rightarrow> [] | c # t \<Rightarrow> if c = CHR ''.'' then takeWhile isDigit t else []);
                  g2 = (if fs = [] then [] else CHR ''.'' # fs);
                  r2 = drop (length g2) r1;
                  u = dropWhile isSpace r2
              in if ToLower u \<in> set [''kb'', ''mb'', ''gb'', ''tb'', ''byte'', ''bytes'']
                 then Some [s, ds @ g2, g2, u] else None)"

subsection \<open>\<^verbatim>\<open>strconv.ParseFloat\<close> on a decimal numeral\<close>

text \<open>
  The numeral is \<^verbatim>\<open>digits\<close> or \<^verbatim>\<open>digits.digits\<close>, as the first group of the regular expression
  delivers it. A value beyond the largest double is a range error.
\<close>

definition digitVal :: "char \<Rightarrow> int" where
  "digitVal c = int (of_char c) - 48"

definition decVal :: "string \<Rightarrow> int" where
  "decVal ds = foldl (\<lambda>a c. 10 * a + digitVal c) 0 ds"

definition ParseFloat :: "string \<Rightarrow> go_error + float64" where
  "ParseFloat s =
     (let ds = takeWhile isDigit s; r = dropWhile isDigit s;
          fs = (case r of [] \<Rightarrow> [] | c # t \<Rightarrow> t)
      in if ds = [] \<or> \<not> (r = [] \<or> (hd r = CHR ''.'' \<and> fs \<noteq> [] \<and> list_all isDigit fs))
         then Inl ErrSyntax
         else (case to_float64 (of_int (decVal (ds @ fs)) / 10 ^ length fs) of
                 PosInf \<Rightarrow> Inl ErrRange
               | Finite x \<Rightarrow> Inr (Finite x)))"

subsection \<open>\<^verbatim>\<open>fileSizeToBytes\<close>\<close>

definition fileSizeToBytes :: "string \<Rightarrow> go_error + int" where
  "fileSizeToBytes sizeStr =
     (case sizeRegex (ToLower sizeStr) of
        None \<Rightarrow> Inl (ErrMsg (''invalid format: '' @ sizeStr))
      | Some match \<Rightarrow>
          (case ParseFloat (match ! 1) of
             Inl err \<Rightarrow> Inl err
           | Inr size_f \<Rightarrow>
               (let unit = match ! 3
                in if unit \<in> set [''kb'', ''kilobyte'', ''kilobytes'']
                   then Inr (float_to_int64 (fmul size_f 1024))
                   else if unit \<in> set [''mb'', ''megabyte'', ''megabytes'']
                   then Inr (float_to_int64 (fmul (fmul size_f 1024) 1024))
                   else if unit \<in> set [''gb'', ''gigabyte'', ''gigabytes'']
                   then Inr (float_to_int64 (fmul (fmul (fmul size_f 1000) 1024) 1024))
                   else Inl (ErrMsg (''unsupported unit: '' @ unit)))))"

section \<open>The retry classifier (main.go, lines 108 to 122)\<close>

text \<open>
  A context is modelled by what \<^verbatim>\<open>ctx.Err()\<close> returns: \<open>None\<close> while it is live, the context
  error once it is done. A response is \<^verbatim>\<open>nil\<close> (\<open>None\<close>) or its status code.
\<close>

definition retryErrorCodes :: "int list" where
  "retryErrorCodes = [429, 500, 502, 503, 504, 509]"

text \<open>
  Modelled from the spec: \<^verbatim>\<open>fserrors.ContextError\<close> belongs to the rclone library and is not part
  of the sources. The specification says: if the governing context is done, the classifier
  returns immediately with the context error regardless of the failure classification.
\<close>

definition ContextError :: "go_error option \<Rightarrow> go_error option \<Rightarrow> bool \<times> go_error option" where
  "ContextError ctx err =
     (case ctx of
        Some ctxErr \<Rightarrow> (True, Some ctxErr)
      | None \<Rightarrow> (False, err))"

text \<open>
  Modelled from the spec: \<^verbatim>\<open>fserrors.ShouldRetry\<close> belongs to the rclone library and is not part
  of the sources. The specification counts a transient network error as retryable and everything
  else, a context error included, as fatal.
\<close>

definition ShouldRetry :: "go_error option \<Rightarrow> bool" where
  "ShouldRetry err =
     (case err of
        Some (ErrTransient msg) \<Rightarrow> True
      | _ \<Rightarrow> False)"

text \<open>
  Modelled from the spec: \<^verbatim>\<open>fserrors.ShouldRetryHTTP\<close> belongs to the rclone library and is not
  part of the sources. The specification counts a response as retryable when its status is one
  of the listed codes.
\<close>

definition ShouldRetryHTTP :: "int option \<Rightarrow> int list \<Rightarrow> bool" where
  "ShouldRetryHTTP resp codes =
     (case resp of
        None \<Rightarrow> False
      | Some status \<Rightarrow> status \<in> set codes)"

text \<open>The function of \<^verbatim>\<open>main.go\<close> itself.\<close>

definition shouldRetry :: "go_error option \<Rightarrow> int option \<Rightarrow> go_error option \<Rightarrow> bool \<times> go_error option" where
  "shouldRetry ctx resp err =
     (case ContextError ctx err of
        (True, err) \<Rightarrow> (False, err)
      | (False, err) \<Rightarrow> (ShouldRetry err \<or> ShouldRetryHTTP resp retryErrorCodes, err))"

section \<open>Data model\<close>

text \<open>
  The structs of \<^verbatim>\<open>main.go\<close>. Field names are global in a theory, so the fields of
  \<^verbatim>\<open>UploadPartOut\<close> and \<^verbatim>\<open>FileInfo\<close> carry a prefix. Of \<^verbatim>\<open>Uploader\<close> only the numbers are
  fields; its HTTP client, pacer and context act through the environment below.
\<close>

record UploadPartOut =
  out_ID :: string
  out_Name :: string
  out_PartId :: int
  out_PartNo :: int
  out_TotalParts :: int
  out_ChannelID :: int
  out_Size :: int

record Part =
  ID :: int
  PartNo :: int

record FilePayload =
  Name :: string
  Type :: string
  Parts :: "Part list"
  MimeType :: string
  Path :: string
  Size :: int

record FileInfo =
  fi_Id :: string
  fi_Name :: string
  fi_MimeType :: string
  fi_Size :: int
  fi_ParentId :: string
  fi_Type :: string
  fi_ModTime :: string

record ReadMetadataResponse =
  Files :: "FileInfo list"
  NextPageToken :: string

record Uploader =
  numWorkers :: int
  partSize :: int
  channelID :: int

text \<open>
  Library functions whose results the program passes on without looking into them:
  \<^verbatim>\<open>filepath.Base\<close>, \<^verbatim>\<open>filepath.Join\<close> and the hexadecimal MD5 digest. They are parameters of
  the model.
\<close>

record stdlib =
  Base :: "string \<Rightarrow> string"
  Join :: "string \<Rightarrow> string \<Rightarrow> string"
  md5hex :: "string \<Rightarrow> string"

subsection \<open>Calls, events and outcomes\<close>

text \<open>
  What \<^verbatim>\<open>CallJSON\<close> returns (\<^verbatim>\<open>rest.go\<close>): no response and an error when the request could not
  be made or sent, otherwise the response (its status code) with an error exactly when the status
  is outside 200 to 299 or the body could not be decoded.

  A run is observed through the list of its events: the HTTP requests it issues and the lines it
  logs. A control-plane request goes through \<^verbatim>\<open>pacer.Call\<close>, which belongs to the rclone library;
  the model records the request once and takes the result of its last attempt from the
  environment. The part uploads of one file run concurrently; their events are listed by part
  number.

  A function returns, or the process exits (\<^verbatim>\<open>log.Fatalln\<close>), or it crashes (a panic or a
  deadlock found by the run-time system), or it is still waiting when the answers of the server
  are used up.
\<close>

datatype call_result = NoResponse go_error | Response int "go_error option"

datatype event =
    PostPart string "(string \<times> string) list" int
  | PostFile FilePayload
  | DeleteUpload string
  | MakeDir string
  | GetFiles string "(string \<times> string) list"
  | LogError string "go_error option"
  | LogInfo string
  | LogFatal go_error

datatype 'a outcome = Returned 'a | Exited | Crashed | Hung

subsection \<open>The environment of a run\<close>

text \<open>
  For a part: the results of \<^verbatim>\<open>os.Open\<close> and \<^verbatim>\<open>Seek\<close>, of the upload call, and the decoded body.
  For a file: the results of \<^verbatim>\<open>os.Open\<close>, of the first \<^verbatim>\<open>Read\<close> (an error other than end of
  file) and of \<^verbatim>\<open>Stat\<close>, the size of the file, the content type detected from its first bytes,
  the environment of each part by part index, the time at which each part task delivers its
  result (any order of arrival is obtained by a choice of these times), and the results of the
  finalize and delete-session calls.
  For a directory: the result of creating it remotely, of \<^verbatim>\<open>os.ReadDir\<close>, and the answers of the
  server to the successive listing requests.
\<close>

record part_env =
  p_open :: "go_error option"
  p_seek :: "go_error option"
  p_call :: call_result
  p_out :: UploadPartOut

record file_env =
  f_open :: "go_error option"
  f_read :: "go_error option"
  f_stat :: "go_error option"
  f_size :: int
  f_mime :: string
  f_parts :: "int \<Rightarrow> part_env"
  f_done :: "int \<Rightarrow> nat"
  f_finalize :: "go_error option"
  f_delete :: "go_error option"

record dir_env =
  d_mkdir :: "go_error option"
  d_readdir :: "go_error option"
  d_pages :: "(call_result \<times> ReadMetadataResponse) list"

datatype node = FileEntry string file_env | DirEntry string dir_env "node list"

section \<open>Formatting\<close>

text \<open>
  \<^verbatim>\<open>strconv.FormatInt(i, 10)\<close>, the verb \<^verbatim>\<open>%03d\<close> of \<^verbatim>\<open>fmt.Sprintf\<close> (the sign counts in the
  width) and \<^verbatim>\<open>strings.ReplaceAll(s, "\\", "/")\<close>.
\<close>

fun digits10 :: "nat \<Rightarrow> string" where
  "digits10 n = (if n < 10 then [char_of (48 + n)] else digits10 (n div 10) @ [char_of (48 + n mod 10)])"

declare digits10.simps [simp del]

definition FormatInt :: "int \<Rightarrow> string" where
  "FormatInt i = (if i < 0 then CHR ''-'' # digits10 (nat (- i)) else digits10 (nat i))"

definition Sprintf_03d :: "int \<Rightarrow> string" where
  "Sprintf_03d i =
     (if i < 0 then CHR ''-'' # replicate (2 - length (digits10 (nat (- i)))) CHR ''0'' @ digits10 (nat (- i))
      else replicate (3 - length (digits10 (nat i))) CHR ''0'' @ digits10 (nat i))"

definition ReplaceAll_backslash :: "string \<Rightarrow> string" where
  "ReplaceAll_backslash s = map (\<lambda>c. if c = CHR 0x5C then CHR ''/'' else c) s"

section \<open>\<^verbatim>\<open>uploadFile\<close> (main.go, lines 155 to 337)\<close>

text \<open>
  \<^verbatim>\<open>file.Read\<close> on a file of size 0 returns \<^verbatim>\<open>io.EOF\<close>.
\<close>

definition file_Read :: "file_env \<Rightarrow> go_error option" where
  "file_Read env =
     (case f_read env of
        Some err \<Rightarrow> Some err
      | None \<Rightarrow> if f_size env = 0 then Some ErrEOF else None)"

text \<open>The body of the goroutine of one part (lines 225 to 282).\<close>

definition uploadPart ::
  "Uploader \<Rightarrow> file_env \<Rightarrow> string \<Rightarrow> string \<Rightarrow> int \<Rightarrow> int \<Rightarrow> int \<Rightarrow> event list \<times> UploadPartOut option" where
  "uploadPart u env fileName uploadURL fileSize nParts partNumber =
     (let start = wrap64 (partNumber * partSize u);
          end0 = wrap64 (start + partSize u);
          end = (if end0 > fileSize then fileSize else end0);
          pe = f_parts env partNumber
      in case p_open pe of
           Some err \<Rightarrow> ([LogError ''Error:'' (Some err)], None)
         | None \<Rightarrow>
        (case p_seek pe of
           Some err \<Rightarrow> ([LogError ''Error:'' (Some err)], None)
         | None \<Rightarrow>
        (let name = (if nParts > 1
                     then fileName @ ''.part.'' @ Sprintf_03d (wrap64 (partNumber + 1))
                     else fileName);
             contentLength = wrap64 (end - start);
             post = PostPart uploadURL
                      [(''fileName'', name),
                       (''partNo'', FormatInt (wrap64 (partNumber + 1))),
                       (''totalparts'', FormatInt nParts),
                       (''channelId'', FormatInt (channelID u))]
                      contentLength
         in case p_call pe of
              NoResponse err \<Rightarrow> ([post, LogError ''Error:'' (Some err)], None)
            | Response status (Some err) \<Rightarrow> ([post, LogError ''Error:'' (Some err)], None)
            | Response status None \<Rightarrow>
                if status = 200 then ([post], Some (p_out pe)) else ([post], None))))"

text \<open>
  The loop of lines 215 to 283 starts one task per part number \<open>0, \<dots>, numParts - 1\<close>;
  \<open>partEvents\<close> are the events of all of them, and \<open>uploadedParts\<close> is what the channel
  delivers: the results of the tasks that sent one, in the order of their arrival.
\<close>

definition partRuns ::
  "Uploader \<Rightarrow> file_env \<Rightarrow> string \<Rightarrow> string \<Rightarrow> int \<Rightarrow> int \<Rightarrow> (int \<times> event list \<times> UploadPartOut option) list" where
  "partRuns u env fileName uploadURL fileSize nParts =
     map (\<lambda>i. (i, uploadPart u env fileName uploadURL fileSize nParts i)) [0..nParts - 1]"

definition partEvents :: "(int \<times> event list \<times> UploadPartOut option) list \<Rightarrow> event list" where
  "partEvents runs = concat (map (\<lambda>(i, evs, r). evs) runs)"

definition uploadedParts :: "file_env \<Rightarrow> (int \<times> event list \<times> UploadPartOut option) list \<Rightarrow> UploadPartOut list" where
  "uploadedParts env runs =
     map snd (sort_key (\<lambda>(i, out). f_done env i)
       (List.map_filter (\<lambda>(i, evs, r). case r of None \<Rightarrow> None | Some out \<Rightarrow> Some (i, out)) runs))"

definition sessionPath :: "stdlib \<Rightarrow> string \<Rightarrow> string \<Rightarrow> int \<Rightarrow> string" where
  "sessionPath L fileName destDir fileSize =
     (let input = fileName @ '':'' @ destDir @ '':'' @ FormatInt fileSize
      in ''/api/uploads/'' @ md5hex L input)"

text \<open>
  \<^verbatim>\<open>make\<close> panics on a negative capacity, and with no worker slot the first task is never
  admitted. \<^verbatim>\<open>sort.Slice\<close> orders the parts by \<^verbatim>\<open>PartNo\<close>; it is modelled by a sort on that
  key (the order it gives to parts of equal \<^verbatim>\<open>PartNo\<close> is not specified by Go).
\<close>

definition uploadFile ::
  "stdlib \<Rightarrow> Uploader \<Rightarrow> file_env \<Rightarrow> string \<Rightarrow> string \<Rightarrow> event list \<times> go_error option outcome" where
  "uploadFile L u env filePath destDir =
     (case f_open env of
        Some err \<Rightarrow> ([], Returned (Some err))
      | None \<Rightarrow>
     (case file_Read env of
        Some err \<Rightarrow> ([LogError ''Error reading file:'' (Some err)], Returned None)
      | None \<Rightarrow>
     (case f_stat env of
        Some err \<Rightarrow> ([], Crashed)
      | None \<Rightarrow>
     (let mimeType = f_mime env;
          fileSize = f_size env;
          fileName = Base L filePath;
          uploadURL = sessionPath L fileName destDir fileSize
      in case numParts fileSize (partSize u) of
           None \<Rightarrow> ([], Crashed)
         | Some n \<Rightarrow>
             if n < 0 \<or> numWorkers u < 0 then ([], Crashed)
             else if numWorkers u = 0 \<and> 0 < n then ([], Crashed)
             else
               (let runs = partRuns u env fileName uploadURL fileSize n;
                    evs = partEvents runs;
                    parts = map (\<lambda>uploadPart. \<lparr>ID = out_PartId uploadPart, PartNo = out_PartNo uploadPart\<rparr>)
                              (uploadedParts env runs)
                in if int (length parts) \<noteq> n
                   then (evs, Returned (Some (ErrMsg (''upload failed: '' @ fileName))))
                   else
                     (let parts = sort_key PartNo parts;
                          filePayload = \<lparr>Name = fileName, Type = ''file'', Parts = parts,
                                         MimeType = mimeType, Path = destDir, Size = fileSize\<rparr>
                      in case f_finalize env of
                           Some err \<Rightarrow> (evs @ [PostFile filePayload], Returned (Some err))
                         | None \<Rightarrow>
                        (case f_delete env of
                           Some err \<Rightarrow>
                             (evs @ [PostFile filePayload, DeleteUpload uploadURL], Returned (Some err))
                         | None \<Rightarrow>
                             (evs @ [PostFile filePayload, DeleteUpload uploadURL], Returned None))))))))"

section \<open>The directory walk (main.go, lines 339 to 472)\<close>

definition createRemoteDir :: "string \<Rightarrow> go_error option \<Rightarrow> event list \<times> go_error option" where
  "createRemoteDir path result =
     (let path = (if length path = 0 \<or> hd path \<noteq> CHR ''/'' then CHR ''/'' # path else path)
      in ([MakeDir path], result))"

text \<open>
  A request that got no response leaves \<^verbatim>\<open>resp\<close> \<^verbatim>\<open>nil\<close>, and line 387 reads its status.
\<close>

definition readMetaDataForPath ::
  "string \<Rightarrow> nat \<Rightarrow> string \<Rightarrow> call_result \<times> ReadMetadataResponse
     \<Rightarrow> event list \<times> (go_error + ReadMetadataResponse) outcome" where
  "readMetaDataForPath path perPage nextPageToken answer =
     (let get = GetFiles ''/api/files''
                  [(''path'', path), (''perPage'', FormatInt (int perPage)), (''sort'', ''name''),
                   (''order'', ''asc''), (''op'', ''list''), (''nextPageToken'', nextPageToken)]
      in case fst answer of
           NoResponse err \<Rightarrow> ([get], Crashed)
         | Response status (Some err) \<Rightarrow>
             if status = 404 then ([get], Returned (Inl ErrorDirNotFound))
             else ([get], Returned (Inl err))
         | Response status None \<Rightarrow> ([get], Returned (Inr (snd answer))))"

text \<open>
  The loop of \<^verbatim>\<open>list\<close> (lines 398 to 421) may run for ever; it consumes one answer of the server
  for each request and is cut off when they are used up.
\<close>

fun list_loop ::
  "string \<Rightarrow> (call_result \<times> ReadMetadataResponse) list \<Rightarrow> string \<Rightarrow> FileInfo list
     \<Rightarrow> event list \<times> (go_error + FileInfo list) outcome" where
  "list_loop path [] nextPageToken files = ([], Hung)"
| "list_loop path (answer # answers) nextPageToken files =
     (case readMetaDataForPath path 500 nextPageToken answer of
        (evs, Returned (Inl err)) \<Rightarrow> (evs, Returned (Inl err))
      | (evs, Returned (Inr info)) \<Rightarrow>
          if NextPageToken info = ''''
          then (evs, Returned (Inr (files @ Files info)))
          else (case list_loop path answers (NextPageToken info) (files @ Files info) of
                  (evs', r) \<Rightarrow> (evs @ evs', r))
      | (evs, Exited) \<Rightarrow> (evs, Exited)
      | (evs, Crashed) \<Rightarrow> (evs, Crashed)
      | (evs, Hung) \<Rightarrow> (evs, Hung))"

definition list_files ::
  "string \<Rightarrow> (call_result \<times> ReadMetadataResponse) list \<Rightarrow> event list \<times> (go_error + FileInfo list) outcome" where
  "list_files path answers = list_loop path answers '''' []"

fun checkFileExists :: "string \<Rightarrow> FileInfo list \<Rightarrow> bool" where
  "checkFileExists name [] = False"
| "checkFileExists name (item # files) = (if fi_Name item = name then True else checkFileExists name files)"

text \<open>
  \<open>walk_entries\<close> is the loop over the entries (lines 446 to 470) with the listing it was
  given.
\<close>

fun uploadFilesInDirectory ::
  "stdlib \<Rightarrow> Uploader \<Rightarrow> string \<Rightarrow> string \<Rightarrow> dir_env \<Rightarrow> node list \<Rightarrow> event list \<times> go_error option outcome"
and walk_entries ::
  "stdlib \<Rightarrow> Uploader \<Rightarrow> string \<Rightarrow> string \<Rightarrow> FileInfo list \<Rightarrow> node list \<Rightarrow> event list \<times> go_error option outcome"
where
  "uploadFilesInDirectory L u sourcePath destDir denv entries =
     (case d_readdir denv of
        Some err \<Rightarrow> ([], Returned (Some err))
      | None \<Rightarrow>
          (case list_files (ReplaceAll_backslash destDir) (d_pages denv) of
             (evs, Returned (Inl err)) \<Rightarrow> (evs, Returned (Some err))
           | (evs, Returned (Inr files)) \<Rightarrow>
               (case walk_entries L u sourcePath (ReplaceAll_backslash destDir) files entries of
                  (evs', r) \<Rightarrow> (evs @ evs', r))
           | (evs, Exited) \<Rightarrow> (evs, Exited)
           | (evs, Crashed) \<Rightarrow> (evs, Crashed)
           | (evs, Hung) \<Rightarrow> (evs, Hung)))"
| "walk_entries L u sourcePath destDir files [] = ([], Returned None)"
| "walk_entries L u sourcePath destDir files (FileEntry name fenv # entries) =
     (if \<not> checkFileExists name files
      then (case uploadFile L u fenv (Join L sourcePath name) destDir of
              (evs, Returned err) \<Rightarrow>
                (case walk_entries L u sourcePath destDir files entries of
                   (evs', r) \<Rightarrow>
                     (evs @ (case err of None \<Rightarrow> [] | Some e \<Rightarrow> [LogError (''upload failed: '' @ name) (Some e)])
                        @ evs', r))
            | (evs, r) \<Rightarrow> (evs, r))
      else (case walk_entries L u sourcePath destDir files entries of
              (evs', r) \<Rightarrow> (LogInfo (''file exists: '' @ name) # evs', r)))"
| "walk_entries L u sourcePath destDir files (DirEntry name denv sub # entries) =
     (let fullPath = Join L sourcePath name;
          subDir = ReplaceAll_backslash (Join L destDir name)
      in case createRemoteDir subDir (d_mkdir denv) of
           (evs, Some err) \<Rightarrow> (evs @ [LogFatal err], Exited)
         | (evs, None) \<Rightarrow>
             (case uploadFilesInDirectory L u fullPath subDir denv sub of
                (evs', Returned err) \<Rightarrow>
                  (case walk_entries L u sourcePath destDir files entries of
                     (evs'', r) \<Rightarrow> (evs @ evs' @ [LogError '''' err] @ evs'', r))
              | (evs', r) \<Rightarrow> (evs @ evs', r)))"

subsection \<open>Observing a run\<close>

text \<open>
  The requests among the events of a run, the entries that the remote listing already has, and
  the listing that \<^verbatim>\<open>uploadFilesInDirectory\<close> obtains for a directory.
\<close>

definition is_request :: "event \<Rightarrow> bool" where
  "is_request ev =
     (case ev of
        PostPart path params len \<Rightarrow> True
      | PostFile payload \<Rightarrow> True
      | DeleteUpload path \<Rightarrow> True
      | MakeDir path \<Rightarrow> True
      | GetFiles path params \<Rightarrow> True
      | LogError msg err \<Rightarrow> False
      | LogInfo msg \<Rightarrow> False
      | LogFatal err \<Rightarrow> False)"

definition requests :: "event list \<times> 'a \<Rightarrow> event list \<times> 'a" where
  "requests run = (filter is_request (fst run), snd run)"

definition exists_remotely :: "FileInfo list \<Rightarrow> node \<Rightarrow> bool" where
  "exists_remotely files entry =
     (case entry of
        FileEntry name fenv \<Rightarrow> checkFileExists name files
      | DirEntry name denv sub \<Rightarrow> False)"

definition remote_listing :: "string \<Rightarrow> dir_env \<Rightarrow> FileInfo list" where
  "remote_listing destDir denv =
     (case snd (list_files (ReplaceAll_backslash destDir) (d_pages denv)) of
        Returned (Inr files) \<Rightarrow> files
      | Returned (Inl err) \<Rightarrow> []
      | Exited \<Rightarrow> []
      | Crashed \<Rightarrow> []
      | Hung \<Rightarrow> [])"

section \<open>Example runs\<close>

text \<open>
  A file of 2500 bytes uploaded in parts of 1000 bytes, whose results arrive in reverse order,
  and a small directory whose remote listing comes in two pages.
\<close>

definition ex_lib :: stdlib where
  "ex_lib = \<lparr>Base = (\<lambda>p. rev (takeWhile (\<lambda>c. c \<noteq> CHR ''/'') (rev p))),
             Join = (\<lambda>a b. a @ ''/'' @ b),
             md5hex = (\<lambda>s. ''0f'')\<rparr>"

definition ex_uploader :: Uploader where
  "ex_uploader = \<lparr>numWorkers = 4, partSize = 1000, channelID = 7\<rparr>"

definition ex_part :: "call_result \<Rightarrow> int \<Rightarrow> part_env" where
  "ex_part answer i =
     \<lparr>p_open = None, p_seek = None, p_call = answer,
      p_out = \<lparr>out_ID = [], out_Name = [], out_PartId = 100 + i, out_PartNo = i + 1,
               out_TotalParts = 3, out_ChannelID = 7, out_Size = 0\<rparr>\<rparr>"

definition ex_file :: "(int \<Rightarrow> call_result) \<Rightarrow> file_env" where
  "ex_file answers =
     \<lparr>f_open = None, f_read = None, f_stat = None, f_size = 2500, f_mime = ''application/octet-stream'',
      f_parts = (\<lambda>i. ex_part (answers i) i), f_done = (\<lambda>i. nat (10 - i)),
      f_finalize = None, f_delete = None\<rparr>"

definition ex_answers_fail :: "int \<Rightarrow> call_result" where
  "ex_answers_fail i = (if i = 1 then Response 500 (Some (ErrMsg ''http error 500'')) else Response 200 None)"

definition ex_payload :: FilePayload where
  "ex_payload =
     \<lparr>Name = ''big.bin'', Type = ''file'',
      Parts = [\<lparr>ID = 100, PartNo = 1\<rparr>, \<lparr>ID = 101, PartNo = 2\<rparr>, \<lparr>ID = 102, PartNo = 3\<rparr>],
      MimeType = ''application/octet-stream'', Path = ''/dst'', Size = 2500\<rparr>"

definition ex_info :: "string \<Rightarrow> FileInfo" where
  "ex_info name = \<lparr>fi_Id = ''1'', fi_Name = name, fi_MimeType = [], fi_Size = 0,
                   fi_ParentId = [], fi_Type = ''file'', fi_ModTime = []\<rparr>"

definition ex_dir :: dir_env where
  "ex_dir = \<lparr>d_mkdir = None, d_readdir = None,
             d_pages = [(Response 200 None, \<lparr>Files = [ex_info ''a.bin''], NextPageToken = ''t1''\<rparr>),
                        (Response 200 None, \<lparr>Files = [ex_info ''old.bin''], NextPageToken = []\<rparr>)]\<rparr>"

definition ex_dir_mkdir_fails :: dir_env where
  "ex_dir_mkdir_fails = \<lparr>d_mkdir = Some (ErrMsg ''http error 403''), d_readdir = None, d_pages = []\<rparr>"

definition ex_dir_unreadable :: dir_env where
  "ex_dir_unreadable = \<lparr>d_mkdir = None, d_readdir = Some (ErrMsg ''permission denied''), d_pages = []\<rparr>"

definition ex_get :: "string \<Rightarrow> event" where
  "ex_get t = GetFiles ''/api/files''
                [(''path'', ''/dst''), (''perPage'', ''500''), (''sort'', ''name''),
                 (''order'', ''asc''), (''op'', ''list''), (''nextPageToken'', t)]"

section \<open>Properties\<close>

subsection \<open>The part count\<close>

lemma wrap64_id: "is_int64 x \<Longrightarrow> wrap64 x = x"
  by (simp add: is_int64_def wrap64_def)

lemma wrap64_range: "is_int64 (wrap64 x)"
proof -
  have "0 \<le> (x + 2 ^ 63) mod 2 ^ 64" "(x + 2 ^ 63) mod 2 ^ 64 < (2 ^ 64 :: int)"
    by simp_all
  then show ?thesis by (simp add: is_int64_def wrap64_def)
qed

lemma sdiv_nonneg: "0 \<le> a \<Longrightarrow> 0 < b \<Longrightarrow> a sdiv b = a div (b::int)"
  by (simp add: signed_divide_int_def sgn_if)

lemma smod_nonneg: "0 \<le> a \<Longrightarrow> 0 < b \<Longrightarrow> a smod b = a mod (b::int)"
  by (simp add: signed_modulo_int_def sgn_if)

lemma ceiling_div_cases:
  assumes "0 < (b::int)"
  shows "- (- a div b) = (if a mod b \<noteq> 0 then a div b + 1 else a div b)"
proof (cases "a mod b = 0")
  case True
  then have "b dvd a" by (simp add: dvd_eq_mod_eq_0)
  then have "- a div b = - (a div b)" by (rule dvd_neg_div)
  with True show ?thesis by simp
next
  case False
  have a: "a = b * (a div b) + a mod b" by simp
  have lo: "0 < a mod b" using False assms pos_mod_sign [of b a] by linarith
  have hi: "a mod b < b" using assms by simp
  have "- a = b * (- (a div b) - 1) + (b - a mod b)"
    using a by (simp add: algebra_simps)
  moreover have "0 \<le> b - a mod b" "b - a mod b < b" using lo hi by simp_all
  ultimately have "- a div b = - (a div b) - 1"
    using assms by (metis int_div_pos_eq)
  with False show ?thesis by simp
qed

lemma numParts_range: "numParts a b = Some n \<Longrightarrow> is_int64 n"
  by (auto simp: numParts_def int64_div_def Let_def wrap64_range split: if_splits)

text \<open>
  Claim C1, as amended. For every file size \<open>fsize \<ge> 0\<close> and part size \<open>psize > 0\<close>
  (both \<^verbatim>\<open>int64\<close> values) the part count computed by \<^verbatim>\<open>uploadFile\<close> is
  \<open>\<lceil>fsize / psize\<rceil>\<close>; in particular it is 0, not 1, for a file of size 0.
\<close>

theorem numParts_ceiling:
  assumes "0 \<le> fsize" and "is_int64 fsize" and "0 < psize" and "is_int64 psize"
  shows "numParts fsize psize = Some \<lceil>real_of_int fsize / real_of_int psize\<rceil>
         \<and> numParts 0 psize = Some 0"
proof -
  have q0: "0 \<le> fsize div psize"
    using assms(1,3) by (simp add: pos_imp_zdiv_nonneg_iff)
  have "fsize div psize \<le> fsize div 1"
    using assms(1,3) by (intro zdiv_mono2) simp_all
  then have q1: "fsize div psize \<le> fsize" by simp
  note q = q0 q1
  have w: "wrap64 (fsize div psize) = fsize div psize"
    using q assms(2) by (intro wrap64_id) (simp add: is_int64_def)
  have lt: "fsize mod psize \<noteq> 0 \<Longrightarrow> fsize div psize < fsize"
  proof -
    assume nz: "fsize mod psize \<noteq> 0"
    have "0 < fsize mod psize" using nz assms(3) pos_mod_sign [of psize fsize] by linarith
    moreover have "fsize = psize * (fsize div psize) + fsize mod psize" by simp
    moreover have "fsize div psize \<le> psize * (fsize div psize)"
      using assms(3) q(1) by (simp add: mult_le_cancel_right1)
    ultimately show ?thesis by linarith
  qed
  have w1: "fsize mod psize \<noteq> 0 \<Longrightarrow>
            wrap64 (fsize div psize + 1) = fsize div psize + 1"
    using lt q assms(2) by (intro wrap64_id) (simp add: is_int64_def)
  have "numParts fsize psize =
        Some (if fsize mod psize \<noteq> 0 then fsize div psize + 1 else fsize div psize)"
    using assms(1,3) w w1
    by (simp add: numParts_def int64_div_def int64_rem_def sdiv_nonneg smod_nonneg Let_def)
  moreover have "numParts 0 psize = Some 0"
    using assms(3) by (simp add: numParts_def int64_div_def int64_rem_def wrap64_def
        signed_divide_int_def signed_modulo_int_def)
  ultimately show ?thesis
    using assms(3) by (simp add: ceiling_divide_eq_div ceiling_div_cases)
qed

theorem numParts_ceiling_witness:
  "numParts 2621440000 1048576000 = Some 3 \<and> numParts 0 1048576000 = Some 0"
proof -
  have "\<lceil>real_of_int 2621440000 / real_of_int 1048576000\<rceil> = 3"
    by (simp add: ceiling_eq_iff)
  then show ?thesis
    using numParts_ceiling [of 2621440000 1048576000] by (simp add: is_int64_def)
qed

text \<open>Claim C1 as stated fails for the empty file: the count is 0, not 1.\<close>

theorem numParts_empty_file_counterexample:
  "numParts 0 1048576000 = Some 0 \<and> numParts 0 1048576000 \<noteq> Some 1"
  by (simp add: numParts_def int64_div_def int64_rem_def wrap64_def
      signed_divide_int_def signed_modulo_int_def)

subsection \<open>The size parser\<close>

lemma pow2_pos: "0 < pow2 k"
  by (simp add: pow2_def)

lemma pow2_nonpos: "e \<le> 0 \<Longrightarrow> pow2 e = 1 / 2 ^ nat (- e)"
  by (cases "e = 0") (simp_all add: pow2_def)

lemma round_half_even_int: "round_half_even (of_int m) = m"
  by (simp add: round_half_even_def)

lemma ilog2_of_int_le:
  assumes "0 < n" and "n < 2 ^ 53"
  shows "ilog2 (of_int n) \<le> 52"
proof -
  have "bitlen n \<le> 53" using assms(2) by (simp add: bitlen_le_iff_power)
  moreover have "bitlen 1 = 1" by (simp add: bitlen_alt_def)
  ultimately show ?thesis by (simp add: ilog2_def Let_def)
qed

lemma round64_of_int:
  assumes "0 \<le> n" and "n < 2 ^ 53"
  shows "round64 (of_int n) = of_int n"
proof (cases "n = 0")
  case True
  then show ?thesis by (simp add: round64_def)
next
  case False
  with assms have pos: "0 < n" by simp
  define e where "e = max (ilog2 (of_int n) - 52) (- 1074)"
  have e: "e \<le> 0" using ilog2_of_int_le [OF pos assms(2)] by (simp add: e_def)
  have "(of_int n :: rat) / pow2 e = of_int (n * 2 ^ nat (- e))"
    using e by (simp add: pow2_nonpos)
  then have "round_half_even (of_int n / pow2 e) = n * 2 ^ nat (- e)"
    by (simp only: round_half_even_int)
  then have "of_int (round_half_even (of_int n / pow2 e)) * pow2 e = (of_int n :: rat)"
    using e by (simp add: pow2_nonpos)
  then show ?thesis using pos by (simp add: round64_def e_def Let_def)
qed

lemma not_overflow: "x < 2 ^ 63 \<Longrightarrow> \<not> 2 ^ 1024 \<le> (x::rat)"
proof -
  assume "x < 2 ^ 63"
  moreover have "(2::rat) ^ 63 \<le> 2 ^ 1024" by (rule power_increasing) simp_all
  ultimately show ?thesis by linarith
qed

lemma to_float64_of_int:
  assumes "0 \<le> n" and "n < 2 ^ 53"
  shows "to_float64 (of_int n) = Finite (of_int n)"
proof -
  have "(of_int n :: rat) < 2 ^ 53" using assms(2) by (metis of_int_less_numeral_power_cancel_iff)
  moreover have "(2::rat) ^ 53 \<le> 2 ^ 63" by (rule power_increasing) simp_all
  ultimately have "(of_int n :: rat) < 2 ^ 63" by linarith
  then show ?thesis
    using assms by (simp add: to_float64_def round64_of_int not_overflow)
qed

lemma fmul_of_int:
  assumes "0 \<le> a * c" and "a * c < 2 ^ 53"
  shows "fmul (Finite (of_int a)) (of_int c) = Finite (of_int (a * c))"
  using to_float64_of_int [OF assms] by simp

lemma float_to_int64_of_int: "n < 2 ^ 63 \<Longrightarrow> float_to_int64 (Finite (of_int n)) = n"
  by simp

lemma isSpace_chars: "isSpace c \<Longrightarrow> \<not> isDigit c \<and> c \<noteq> CHR ''.'' \<and> toLowerChar c = c"
  by (auto simp: isSpace_def isDigit_def toLowerChar_def)

lemma isDigit_lower: "isDigit c \<Longrightarrow> toLowerChar c = c"
  by (simp add: isDigit_def toLowerChar_def)

lemma ToLower_digits: "list_all isDigit ds \<Longrightarrow> ToLower ds = ds"
  by (induction ds) (simp_all add: ToLower_def isDigit_lower)

lemma ToLower_spaces: "list_all isSpace ws \<Longrightarrow> ToLower ws = ws"
  by (induction ws) (simp_all add: ToLower_def isSpace_chars)

lemma ToLower_append: "ToLower (xs @ ys) = ToLower xs @ ToLower ys"
  by (simp add: ToLower_def)

lemma takeWhile_prefix:
  "list_all P ds \<Longrightarrow> r = [] \<or> \<not> P (hd r) \<Longrightarrow> takeWhile P (ds @ r) = ds \<and> dropWhile P (ds @ r) = r"
  by (induction ds) (cases r; simp)+

lemma unit_head:
  assumes "lu \<in> {''kb'', ''mb'', ''gb''}"
  shows "lu \<noteq> [] \<and> \<not> isDigit (hd lu) \<and> \<not> isSpace (hd lu) \<and> hd lu \<noteq> CHR ''.'' \<and> ToLower lu = lu"
  using assms by (auto simp: isDigit_def isSpace_def ToLower_def toLowerChar_def)

lemma sizeRegex_integral:
  assumes "ds \<noteq> []" and "list_all isDigit ds" and "list_all isSpace ws"
    and "lu \<in> {''kb'', ''mb'', ''gb''}"
  shows "sizeRegex (ds @ ws @ lu) = Some [ds @ ws @ lu, ds, [], lu]"
proof -
  note u = unit_head [OF assms(4)]
  have hd_r: "ws @ lu \<noteq> [] \<and> \<not> isDigit (hd (ws @ lu)) \<and> hd (ws @ lu) \<noteq> CHR ''.''"
    using u assms(3) by (cases ws) (simp_all add: isSpace_chars)
  have t1: "takeWhile isDigit (ds @ ws @ lu) = ds" "dropWhile isDigit (ds @ ws @ lu) = ws @ lu"
    using takeWhile_prefix [OF assms(2), of "ws @ lu"] hd_r by simp_all
  have fs: "(case ws @ lu of [] \<Rightarrow> [] | c # t \<Rightarrow> if c = CHR ''.'' then takeWhile isDigit t else []) = []"
    using hd_r by (cases "ws @ lu") simp_all
  have t2: "dropWhile isSpace (ws @ lu) = lu"
    using takeWhile_prefix [OF assms(3), of lu] u by simp
  have mem: "ToLower lu \<in> set [''kb'', ''mb'', ''gb'', ''tb'', ''byte'', ''bytes'']"
    using u assms(4) by auto
  show ?thesis
    unfolding sizeRegex_def t1 Let_def fs using assms(1) t2 mem by simp
qed

lemma ParseFloat_digits:
  assumes "ds \<noteq> []" and "list_all isDigit ds" and "0 \<le> decVal ds" and "decVal ds < 2 ^ 53"
  shows "ParseFloat ds = Inr (Finite (of_int (decVal ds)))"
proof -
  have t: "takeWhile isDigit ds = ds" "dropWhile isDigit ds = []"
    using takeWhile_prefix [OF assms(2), of "[]"] by simp_all
  show ?thesis
    unfolding ParseFloat_def t Let_def
    using assms(1) to_float64_of_int [OF assms(3,4)] by simp
qed

lemma decVal_nonneg_aux: "list_all isDigit ds \<Longrightarrow> 0 \<le> a \<Longrightarrow> 0 \<le> foldl (\<lambda>a c. 10 * a + digitVal c) a ds"
  by (induction ds arbitrary: a) (simp_all add: isDigit_def digitVal_def)

lemma decVal_nonneg: "list_all isDigit ds \<Longrightarrow> 0 \<le> decVal ds"
  by (simp add: decVal_def decVal_nonneg_aux)

text \<open>
  Claim C4, as amended. For every size string made of a whole decimal number, optional white
  space and a unit that is \<^verbatim>\<open>KB\<close>, \<^verbatim>\<open>MB\<close> or \<^verbatim>\<open>GB\<close> in any mix of upper and lower case, with
  the number times \<open>1000 * 1024 * 1024\<close> below \<open>2\<^sup>5\<^sup>3\<close>, the parser returns exactly the number
  times 1024 for KB, times \<open>1024 * 1024\<close> for MB and times \<open>1000 * 1024 * 1024\<close> for GB.
\<close>

theorem fileSizeToBytes_integral:
  assumes "ds \<noteq> []" and "list_all isDigit ds" and "list_all isSpace ws"
    and "ToLower u \<in> {''kb'', ''mb'', ''gb''}"
    and "decVal ds * 1048576000 < 2 ^ 53"
  shows "fileSizeToBytes (ds @ ws @ u) =
         Inr (decVal ds * (if ToLower u = ''kb'' then 1024
                           else if ToLower u = ''mb'' then 1024 * 1024
                           else 1000 * 1024 * 1024))"
proof -
  define n where "n = decVal ds"
  have n0: "0 \<le> n" using assms(2) by (simp add: n_def decVal_nonneg)
  have b: "n * 1048576000 < 2 ^ 53" using assms(5) by (simp add: n_def)
  have n53: "n < 2 ^ 53" "n * 1000 < 2 ^ 53" "n * 1024 < 2 ^ 53" "n * 1024 * 1024 < 2 ^ 53"
    "n * 1000 * 1024 < 2 ^ 53" "n * 1000 * 1024 * 1024 < 2 ^ 53"
    using n0 b by simp_all
  have low: "ToLower (ds @ ws @ u) = ds @ ws @ ToLower u"
    using assms(2,3) by (simp add: ToLower_append ToLower_digits ToLower_spaces)
  have m: "sizeRegex (ToLower (ds @ ws @ u)) = Some [ds @ ws @ ToLower u, ds, [], ToLower u]"
    unfolding low by (rule sizeRegex_integral [OF assms(1,2,3,4)])
  have p: "ParseFloat ds = Inr (Finite (of_int n))"
    unfolding n_def using assms(1,2) n0 n53(1) by (intro ParseFloat_digits) (simp_all add: n_def)
  have i63: "m < 2 ^ 53 \<Longrightarrow> m < 2 ^ 63" for m :: int
    by (rule less_le_trans [where y = "2 ^ 53"]) simp_all
  have f1: "fmul (Finite (of_int n)) 1024 = Finite (of_int (n * 1024))"
    using fmul_of_int [of n 1024] n0 n53 by simp
  have f2: "fmul (Finite (of_int (n * 1024))) 1024 = Finite (of_int (n * 1024 * 1024))"
    using fmul_of_int [of "n * 1024" 1024] n0 n53 by simp
  have g1: "fmul (Finite (of_int n)) 1000 = Finite (of_int (n * 1000))"
    using fmul_of_int [of n 1000] n0 n53 by simp
  have g2: "fmul (Finite (of_int (n * 1000))) 1024 = Finite (of_int (n * 1000 * 1024))"
    using fmul_of_int [of "n * 1000" 1024] n0 n53 by simp
  have g3: "fmul (Finite (of_int (n * 1000 * 1024))) 1024 = Finite (of_int (n * 1000 * 1024 * 1024))"
    using fmul_of_int [of "n * 1000 * 1024" 1024] n0 n53 by simp
  have k: "float_to_int64 (fmul (Finite (of_int n)) 1024) = n * 1024"
    unfolding f1 by (rule float_to_int64_of_int) (rule i63, rule n53)
  have mb: "float_to_int64 (fmul (fmul (Finite (of_int n)) 1024) 1024) = n * 1024 * 1024"
    unfolding f1 f2 by (rule float_to_int64_of_int) (rule i63, rule n53)
  have g: "float_to_int64 (fmul (fmul (fmul (Finite (of_int n)) 1000) 1024) 1024) = n * 1000 * 1024 * 1024"
    unfolding g1 g2 g3 by (rule float_to_int64_of_int) (rule i63, rule n53)
  from assms(4) consider "ToLower u = ''kb''" | "ToLower u = ''mb''" | "ToLower u = ''gb''" by auto
  then show ?thesis
  proof cases
    case 1
    then show ?thesis using k by (simp add: fileSizeToBytes_def m p n_def)
  next
    case 2
    then show ?thesis using mb by (simp add: fileSizeToBytes_def m p n_def)
  next
    case 3
    then show ?thesis using g by (simp add: fileSizeToBytes_def m p n_def)
  qed
qed

theorem fileSizeToBytes_integral_witness:
  "fileSizeToBytes ''1GB'' = Inr 1048576000 \<and> fileSizeToBytes ''2KB'' = Inr 2048
   \<and> fileSizeToBytes ''2 kb'' = Inr 2048 \<and> fileSizeToBytes ''500mB'' = Inr 524288000"
proof -
  have l: "ToLower ''GB'' = ''gb''" "ToLower ''KB'' = ''kb''" "ToLower ''kb'' = ''kb''"
    "ToLower ''mB'' = ''mb''"
    by code_simp+
  show ?thesis
    using fileSizeToBytes_integral [of "''1''" "[]" "''GB''"]
      fileSizeToBytes_integral [of "''2''" "[]" "''KB''"]
      fileSizeToBytes_integral [of "''2''" "'' ''" "''kb''"]
      fileSizeToBytes_integral [of "''500''" "[]" "''mB''"]
    by (simp add: l isDigit_def isSpace_def decVal_def digitVal_def)
qed

lemma to_float64_small: "round64 r = x \<Longrightarrow> x < 2 ^ 63 \<Longrightarrow> to_float64 r = Finite x"
  by (simp add: to_float64_def not_overflow)

lemma sizeRegex_1001: "sizeRegex ''1.001gb'' = Some [''1.001gb'', ''1.001'', ''.001'', ''gb'']"
  by code_simp

lemma ToLower_1001: "ToLower ''1.001GB'' = ''1.001gb''"
  by code_simp

lemma decVal_1001: "decVal ''1001'' = 1001"
  by code_simp

lemma ParseFloat_1001: "ParseFloat ''1.001'' = Inr (Finite (2254051613498933 / 2251799813685248))"
proof -
  have r: "round64 (1001 / 1000) = 2254051613498933 / 2251799813685248"
    by code_simp
  have t: "to_float64 (1001 / 1000) = Finite (2254051613498933 / 2251799813685248)"
    by (rule to_float64_small [OF r]) simp
  have d: "takeWhile isDigit ''1.001'' = ''1''" "dropWhile isDigit ''1.001'' = ''.001''"
    "list_all isDigit ''001''"
    by code_simp+
  show ?thesis
    unfolding ParseFloat_def d Let_def using t decVal_1001 by (simp add: isDigit_def)
qed

lemma fmul_1001:
  "fmul (fmul (fmul (Finite (2254051613498933 / 2251799813685248)) 1000) 1024) 1024
   = Finite (8804889115230207 / 8388608)"
proof -
  have r1: "round64 (2254051613498933 / 2251799813685248 * 1000) = 8804889115230207 / 8796093022208"
    by code_simp
  have r2: "round64 (8804889115230207 / 8796093022208 * 1024) = 8804889115230207 / 8589934592"
    by code_simp
  have r3: "round64 (8804889115230207 / 8589934592 * 1024) = 8804889115230207 / 8388608"
    by code_simp
  have t1: "to_float64 (2254051613498933 / 2251799813685248 * 1000) = Finite (8804889115230207 / 8796093022208)"
    by (rule to_float64_small [OF r1]) simp
  have t2: "to_float64 (8804889115230207 / 8796093022208 * 1024) = Finite (8804889115230207 / 8589934592)"
    by (rule to_float64_small [OF r2]) simp
  have t3: "to_float64 (8804889115230207 / 8589934592 * 1024) = Finite (8804889115230207 / 8388608)"
    by (rule to_float64_small [OF r3]) simp
  show ?thesis
    by (simp only: fmul.simps t1 t2 t3)
qed

text \<open>
  Claim C4 as stated fails for a numeral with a fraction: the product is computed in
  \<^verbatim>\<open>float64\<close> and truncated, and \<^verbatim>\<open>"1.001GB"\<close> gives one byte less than \<open>1.001 * 1000 * 1024 * 1024\<close>.
\<close>

theorem fileSizeToBytes_fraction_counterexample:
  "fileSizeToBytes ''1.001GB'' = Inr 1049624575
   \<and> (1001 / 1000 :: rat) * (1000 * 1024 * 1024) = 1049624576"
proof -
  have fl: "\<lfloor>8804889115230207 / 8388608 :: rat\<rfloor> = 1049624575"
    by (simp add: floor_eq_iff)
  have "float_to_int64 (Finite (8804889115230207 / 8388608)) = 1049624575"
    by (simp add: fl)
  then show ?thesis
    by (simp add: fileSizeToBytes_def ToLower_1001 sizeRegex_1001 ParseFloat_1001 fmul_1001
        del: fmul.simps float_to_int64.simps)
qed

text \<open>
  Claim C8 at the inputs where the parser departs from it: \<^verbatim>\<open>bytes\<close> and \<^verbatim>\<open>TB\<close> pass the regular
  expression and are refused by the \<^verbatim>\<open>switch\<close>; the longhand units of the \<^verbatim>\<open>switch\<close> never pass the
  regular expression.
\<close>

theorem fileSizeToBytes_bytes:
  "fileSizeToBytes ''10bytes'' = Inl (ErrMsg ''unsupported unit: bytes'')
   \<and> fileSizeToBytes ''1kilobyte'' = Inl (ErrMsg ''invalid format: 1kilobyte'')
   \<and> fileSizeToBytes ''1TB'' = Inl (ErrMsg ''unsupported unit: tb'')"
proof -
  have l: "ToLower ''10bytes'' = ''10bytes''" "ToLower ''1kilobyte'' = ''1kilobyte''"
    "ToLower ''1TB'' = ''1tb''"
    by code_simp+
  have m: "sizeRegex ''10bytes'' = Some [''10bytes'', ''10'', [], ''bytes'']"
    "sizeRegex ''1kilobyte'' = None"
    "sizeRegex ''1tb'' = Some [''1tb'', ''1'', [], ''tb'']"
    by code_simp+
  have p: "ParseFloat ''10'' = Inr (Finite (of_int (decVal ''10'')))"
    "ParseFloat ''1'' = Inr (Finite (of_int (decVal ''1'')))"
    by (rule ParseFloat_digits; simp add: isDigit_def decVal_def digitVal_def)+
  show ?thesis
    by (simp add: fileSizeToBytes_def l m p)
qed

subsection \<open>The retry classifier\<close>

text \<open>
  Claim C6. With a done context the classifier returns non-retryable with the context error,
  whatever the response and the error are. With a live context it returns the error it was given
  and classifies as retryable exactly the transient errors and the responses with status 429,
  500, 502, 503, 504 or 509.
\<close>

theorem shouldRetry_classification:
  "(ctx = Some ctxErr \<longrightarrow> shouldRetry ctx resp err = (False, Some ctxErr))
   \<and> (ctx = None \<longrightarrow>
        shouldRetry ctx resp err =
          ((\<exists>msg. err = Some (ErrTransient msg))
             \<or> (\<exists>status. resp = Some status \<and> status \<in> {429, 500, 502, 503, 504, 509}),
           err))"
  by (auto simp: shouldRetry_def ContextError_def ShouldRetry_def ShouldRetryHTTP_def
        retryErrorCodes_def split: option.splits go_error.splits)

theorem shouldRetry_classification_witness:
  "shouldRetry (Some ErrCanceled) (Some 503) (Some (ErrTransient ''connection reset''))
     = (False, Some ErrCanceled)
   \<and> shouldRetry (Some ErrDeadlineExceeded) None None = (False, Some ErrDeadlineExceeded)
   \<and> shouldRetry None (Some 503) None = (True, None)
   \<and> shouldRetry None None (Some (ErrTransient ''connection reset''))
     = (True, Some (ErrTransient ''connection reset''))
   \<and> shouldRetry None (Some 404) (Some (ErrMsg ''http error 404''))
     = (False, Some (ErrMsg ''http error 404''))"
  using shouldRetry_classification [of "Some ErrCanceled" ErrCanceled "Some 503" "Some (ErrTransient ''connection reset'')"]
    shouldRetry_classification [of "Some ErrDeadlineExceeded" ErrDeadlineExceeded None None]
    shouldRetry_classification [of None _ "Some 503" None]
    shouldRetry_classification [of None _ None "Some (ErrTransient ''connection reset'')"]
    shouldRetry_classification [of None _ "Some 404" "Some (ErrMsg ''http error 404'')"]
  by simp

subsection \<open>\<^verbatim>\<open>uploadFile\<close>\<close>

lemma uploadPart_Some:
  "snd (uploadPart u env fileName url fileSize n i) = Some out \<Longrightarrow> out = p_out (f_parts env i)"
  by (auto simp: uploadPart_def Let_def split: option.splits call_result.splits if_splits)

lemma uploadPart_events:
  assumes "ev \<in> set (fst (uploadPart u env fileName url fileSize n i))"
  shows "(\<exists>e. ev = LogError ''Error:'' e) \<or>
         (\<exists>len. ev = PostPart url
            [(''fileName'', if n > 1 then fileName @ ''.part.'' @ Sprintf_03d (wrap64 (i + 1)) else fileName),
             (''partNo'', FormatInt (wrap64 (i + 1))),
             (''totalparts'', FormatInt n),
             (''channelId'', FormatInt (channelID u))] len)"
  using assms
  by (auto simp: uploadPart_def Let_def split: option.splits call_result.splits if_splits)

lemma partRuns_events:
  assumes "ev \<in> set (partEvents (partRuns u env fileName url fileSize n))"
  shows "\<exists>i. 0 \<le> i \<and> i < n \<and> ev \<in> set (fst (uploadPart u env fileName url fileSize n i))"
  using assms by (fastforce simp: partRuns_def partEvents_def case_prod_beta)

lemma partRuns_no_PostFile:
  "PostFile p \<notin> set (partEvents (partRuns u env fileName url fileSize n))"
proof
  assume "PostFile p \<in> set (partEvents (partRuns u env fileName url fileSize n))"
  then obtain i where "PostFile p \<in> set (fst (uploadPart u env fileName url fileSize n i))"
    using partRuns_events by blast
  from uploadPart_events [OF this] show False by simp
qed

lemma partRuns_no_DeleteUpload:
  "DeleteUpload p \<notin> set (partEvents (partRuns u env fileName url fileSize n))"
proof
  assume "DeleteUpload p \<in> set (partEvents (partRuns u env fileName url fileSize n))"
  then obtain i where "DeleteUpload p \<in> set (fst (uploadPart u env fileName url fileSize n i))"
    using partRuns_events by blast
  from uploadPart_events [OF this] show False by simp
qed

lemma uploadFile_collecting:
  assumes "f_open env = None" and "file_Read env = None" and "f_stat env = None"
    and "numParts (f_size env) (partSize u) = Some n" and "0 \<le> n" and "0 < numWorkers u"
  shows "uploadFile L u env filePath destDir =
     (let fileName = Base L filePath;
          uploadURL = sessionPath L fileName destDir (f_size env);
          runs = partRuns u env fileName uploadURL (f_size env) n;
          evs = partEvents runs;
          parts = map (\<lambda>uploadPart. \<lparr>ID = out_PartId uploadPart, PartNo = out_PartNo uploadPart\<rparr>)
                    (uploadedParts env runs);
          filePayload = \<lparr>Name = fileName, Type = ''file'', Parts = sort_key PartNo parts,
                           MimeType = f_mime env, Path = destDir, Size = f_size env\<rparr>
      in if int (length parts) \<noteq> n
         then (evs, Returned (Some (ErrMsg (''upload failed: '' @ fileName))))
         else case f_finalize env of
                Some err \<Rightarrow> (evs @ [PostFile filePayload], Returned (Some err))
              | None \<Rightarrow> (evs @ [PostFile filePayload, DeleteUpload uploadURL], Returned (f_delete env)))"
  using assms by (simp add: uploadFile_def Let_def split: option.splits)

lemma uploadFile_PostFile:
  assumes "PostFile p \<in> set (fst (uploadFile L u env filePath destDir))"
  shows "\<exists>n. numParts (f_size env) (partSize u) = Some n \<and> 0 \<le> n \<and>
           int (length (uploadedParts env
              (partRuns u env (Base L filePath) (sessionPath L (Base L filePath) destDir (f_size env))
                 (f_size env) n))) = n \<and>
           p = \<lparr>Name = Base L filePath, Type = ''file'',
                 Parts = sort_key PartNo
                   (map (\<lambda>uploadPart. \<lparr>ID = out_PartId uploadPart, PartNo = out_PartNo uploadPart\<rparr>)
                      (uploadedParts env
                         (partRuns u env (Base L filePath)
                            (sessionPath L (Base L filePath) destDir (f_size env)) (f_size env) n))),
                 MimeType = f_mime env, Path = destDir, Size = f_size env\<rparr>"
  using assms
  by (auto simp: uploadFile_def Let_def partRuns_no_PostFile split: option.splits if_splits)

lemma uploadFile_PostPart:
  assumes "PostPart url params len \<in> set (fst (uploadFile L u env filePath destDir))"
  shows "\<exists>n. numParts (f_size env) (partSize u) = Some n \<and>
           PostPart url params len \<in> set (partEvents
             (partRuns u env (Base L filePath) (sessionPath L (Base L filePath) destDir (f_size env))
                (f_size env) n))"
  using assms by (auto simp: uploadFile_def Let_def split: option.splits if_splits)

lemma ex_numParts: "numParts 2500 1000 = Some 3"
  by (simp add: numParts_def int64_div_def int64_rem_def wrap64_def
      signed_divide_int_def signed_modulo_int_def)

lemma ex_run_ok:
  "uploadFile ex_lib ex_uploader (ex_file (\<lambda>i. Response 200 None)) ''/src/big.bin'' ''/dst'' =
     ([PostPart ''/api/uploads/0f''
         [(''fileName'', ''big.bin.part.001''), (''partNo'', ''1''), (''totalparts'', ''3''), (''channelId'', ''7'')] 1000,
       PostPart ''/api/uploads/0f''
         [(''fileName'', ''big.bin.part.002''), (''partNo'', ''2''), (''totalparts'', ''3''), (''channelId'', ''7'')] 1000,
       PostPart ''/api/uploads/0f''
         [(''fileName'', ''big.bin.part.003''), (''partNo'', ''3''), (''totalparts'', ''3''), (''channelId'', ''7'')] 500,
       PostFile ex_payload, DeleteUpload ''/api/uploads/0f''], Returned None)"
  by code_simp

lemma ex_run_fail:
  "uploadFile ex_lib ex_uploader (ex_file ex_answers_fail) ''/src/big.bin'' ''/dst'' =
     ([PostPart ''/api/uploads/0f''
         [(''fileName'', ''big.bin.part.001''), (''partNo'', ''1''), (''totalparts'', ''3''), (''channelId'', ''7'')] 1000,
       PostPart ''/api/uploads/0f''
         [(''fileName'', ''big.bin.part.002''), (''partNo'', ''2''), (''totalparts'', ''3''), (''channelId'', ''7'')] 1000,
       LogError ''Error:'' (Some (ErrMsg ''http error 500'')),
       PostPart ''/api/uploads/0f''
         [(''fileName'', ''big.bin.part.003''), (''partNo'', ''3''), (''totalparts'', ''3''), (''channelId'', ''7'')] 500],
      Returned (Some (ErrMsg ''upload failed: big.bin'')))"
  by code_simp

text \<open>
  Claim C10. If the first read of the file fails, with an error of its own or with end of file
  because the file is empty, \<^verbatim>\<open>uploadFile\<close> logs the error and returns \<^verbatim>\<open>nil\<close>; the log line is
  the only event of the run, so no part upload, finalize or session call is made.
\<close>

theorem uploadFile_read_failure:
  assumes "f_open env = None"
    and "f_read env = Some err \<or> (f_read env = None \<and> f_size env = 0 \<and> err = ErrEOF)"
  shows "uploadFile L u env filePath destDir =
           ([LogError ''Error reading file:'' (Some err)], Returned None)"
  using assms by (auto simp: uploadFile_def file_Read_def)

theorem uploadFile_read_failure_witness:
  "uploadFile ex_lib ex_uploader ((ex_file ex_answers_fail)\<lparr>f_size := 0\<rparr>) ''/src/empty.txt'' ''/dst''
     = ([LogError ''Error reading file:'' (Some ErrEOF)], Returned None)"
  by (rule uploadFile_read_failure) (simp_all add: ex_file_def)

text \<open>
  Claim C2. In a run of \<^verbatim>\<open>uploadFile\<close> that gets as far as collecting the part results, if their
  number differs from \<open>numParts\<close> then \<^verbatim>\<open>uploadFile\<close> returns the error
  \<^verbatim>\<open>upload failed: <name>\<close> and issues no finalize request; and whenever a finalize request
  is issued, the number of collected results equals \<open>numParts\<close>.
\<close>

theorem uploadFile_incomplete:
  assumes "f_open env = None" and "file_Read env = None" and "f_stat env = None"
    and "numParts (f_size env) (partSize u) = Some n" and "0 \<le> n" and "0 < numWorkers u"
  shows "(int (length (uploadedParts env
            (partRuns u env (Base L filePath) (sessionPath L (Base L filePath) destDir (f_size env))
               (f_size env) n))) \<noteq> n
          \<longrightarrow> snd (uploadFile L u env filePath destDir)
                = Returned (Some (ErrMsg (''upload failed: '' @ Base L filePath)))
              \<and> (\<forall>p. PostFile p \<notin> set (fst (uploadFile L u env filePath destDir))))
         \<and> ((\<exists>p. PostFile p \<in> set (fst (uploadFile L u env filePath destDir)))
              \<longrightarrow> int (length (uploadedParts env
                    (partRuns u env (Base L filePath) (sessionPath L (Base L filePath) destDir (f_size env))
                       (f_size env) n))) = n)"
proof -
  have only: "int (length (uploadedParts env
                    (partRuns u env (Base L filePath) (sessionPath L (Base L filePath) destDir (f_size env))
                       (f_size env) n))) = n"
    if "PostFile p \<in> set (fst (uploadFile L u env filePath destDir))" for p
    using uploadFile_PostFile [OF that] assms(4) by auto
  have "snd (uploadFile L u env filePath destDir)
           = Returned (Some (ErrMsg (''upload failed: '' @ Base L filePath)))"
    if "int (length (uploadedParts env
            (partRuns u env (Base L filePath) (sessionPath L (Base L filePath) destDir (f_size env))
               (f_size env) n))) \<noteq> n"
    using that by (simp add: uploadFile_collecting [OF assms(1-6)] Let_def)
  with only show ?thesis by blast
qed

theorem uploadFile_incomplete_witness:
  "snd (uploadFile ex_lib ex_uploader (ex_file ex_answers_fail) ''/src/big.bin'' ''/dst'')
     = Returned (Some (ErrMsg ''upload failed: big.bin''))
   \<and> (\<forall>p. PostFile p \<notin> set (fst (uploadFile ex_lib ex_uploader (ex_file ex_answers_fail) ''/src/big.bin'' ''/dst'')))
   \<and> length (uploadedParts (ex_file ex_answers_fail)
        (partRuns ex_uploader (ex_file ex_answers_fail) ''big.bin'' ''/api/uploads/0f'' 2500 3)) = 2
   \<and> PostFile ex_payload \<in> set (fst (uploadFile ex_lib ex_uploader (ex_file (\<lambda>i. Response 200 None)) ''/src/big.bin'' ''/dst''))
   \<and> length (uploadedParts (ex_file (\<lambda>i. Response 200 None))
        (partRuns ex_uploader (ex_file (\<lambda>i. Response 200 None)) ''big.bin'' ''/api/uploads/0f'' 2500 3)) = 3"
proof -
  have b: "Base ex_lib ''/src/big.bin'' = ''big.bin''"
    and s: "sessionPath ex_lib ''big.bin'' ''/dst'' 2500 = ''/api/uploads/0f''"
    and c: "length (uploadedParts (ex_file ex_answers_fail)
        (partRuns ex_uploader (ex_file ex_answers_fail) ''big.bin'' ''/api/uploads/0f'' 2500 3)) = 2"
    by code_simp+
  have e: "f_open (ex_file answers) = None" "file_Read (ex_file answers) = None"
    "f_stat (ex_file answers) = None"
    "f_size (ex_file answers) = 2500" "partSize ex_uploader = 1000" "0 < numWorkers ex_uploader"
    for answers
    by (simp_all add: ex_file_def file_Read_def ex_uploader_def)
  have m: "PostFile ex_payload \<in> set (fst (uploadFile ex_lib ex_uploader (ex_file (\<lambda>i. Response 200 None)) ''/src/big.bin'' ''/dst''))"
    by (simp add: ex_run_ok)
  have fail: "snd (uploadFile ex_lib ex_uploader (ex_file ex_answers_fail) ''/src/big.bin'' ''/dst'')
     = Returned (Some (ErrMsg ''upload failed: big.bin''))
   \<and> (\<forall>p. PostFile p \<notin> set (fst (uploadFile ex_lib ex_uploader (ex_file ex_answers_fail) ''/src/big.bin'' ''/dst'')))"
    using uploadFile_incomplete [of "ex_file ex_answers_fail" ex_uploader 3 ex_lib "''/src/big.bin''" "''/dst''"]
      ex_numParts e b s c
    by simp
  have ok: "length (uploadedParts (ex_file (\<lambda>i. Response 200 None))
        (partRuns ex_uploader (ex_file (\<lambda>i. Response 200 None)) ''big.bin'' ''/api/uploads/0f'' 2500 3)) = 3"
    using uploadFile_incomplete [of "ex_file (\<lambda>i. Response 200 None)" ex_uploader 3 ex_lib "''/src/big.bin''" "''/dst''"]
      ex_numParts e b s m
    by auto
  from fail c m ok show ?thesis by simp
qed

lemma map_filter_length_le: "length (List.map_filter f xs) \<le> length xs"
  by (induction xs) (auto simp: List.map_filter_simps split: option.splits)

lemma map_filter_all:
  "length (List.map_filter f xs) = length xs \<Longrightarrow> List.map_filter f xs = map (\<lambda>x. the (f x)) xs \<and> (\<forall>x \<in> set xs. f x \<noteq> None)"
proof (induction xs)
  case Nil
  then show ?case by (simp add: List.map_filter_simps)
next
  case (Cons x xs)
  show ?case
  proof (cases "f x")
    case None
    with Cons.prems have "length (List.map_filter f xs) = Suc (length xs)"
      by (simp add: List.map_filter_simps)
    with map_filter_length_le [of f xs] show ?thesis by simp
  next
    case (Some y)
    with Cons show ?thesis by (simp add: List.map_filter_simps)
  qed
qed

lemma map_Suc_upto: "map (\<lambda>i. i + 1) [0..n - 1] = [1..n]"
proof -
  have "map (\<lambda>i. i + 1) [a..b] = [a + 1..b + 1]" for a b :: int
    by (induction a b rule: upto.induct) (simp add: upto.simps)
  from this [of 0 "n - 1"] show ?thesis by simp
qed

lemma uploadedParts_complete:
  assumes "int (length (uploadedParts env (partRuns u env fileName url fileSize n))) = n"
  shows "mset (uploadedParts env (partRuns u env fileName url fileSize n))
           = mset (map (\<lambda>i. p_out (f_parts env i)) [0..n - 1])"
proof -
  define g :: "int \<times> event list \<times> UploadPartOut option \<Rightarrow> (int \<times> UploadPartOut) option"
    where "g = (\<lambda>(i, evs, r). case r of None \<Rightarrow> None | Some out \<Rightarrow> Some (i, out))"
  define runs where "runs = partRuns u env fileName url fileSize n"
  have len: "length (List.map_filter g runs) = length runs"
    using assms by (simp add: uploadedParts_def g_def runs_def partRuns_def)
  note all = map_filter_all [OF len]
  have "snd (the (g run)) = p_out (f_parts env (fst run))" if "run \<in> set runs" for run
  proof -
    from that obtain i where run: "run = (i, uploadPart u env fileName url fileSize n i)"
      by (auto simp: runs_def partRuns_def)
    from all that obtain y where y: "g run = Some y" by auto
    then obtain out where "snd (uploadPart u env fileName url fileSize n i) = Some out" "y = (i, out)"
      by (auto simp: run g_def case_prod_beta split: option.splits)
    then show ?thesis using uploadPart_Some y run by fastforce
  qed
  then have "map snd (List.map_filter g runs) = map (\<lambda>run. p_out (f_parts env (fst run))) runs"
    using all by simp
  also have "\<dots> = map (\<lambda>i. p_out (f_parts env i)) [0..n - 1]"
    by (simp add: runs_def partRuns_def comp_def)
  finally have "map snd (List.map_filter g runs) = map (\<lambda>i. p_out (f_parts env i)) [0..n - 1]" .
  moreover have "mset (uploadedParts env runs) = mset (map snd (List.map_filter g runs))"
    by (simp add: uploadedParts_def g_def)
  ultimately show ?thesis by (simp add: runs_def)
qed

text \<open>
  Claim C3. The parts of every payload sent to finalize are sorted ascending by \<^verbatim>\<open>PartNo\<close>;
  and if every part result echoes the part number it was uploaded with, their part numbers are
  exactly \<open>1, \<dots>, numParts\<close>, each once.
\<close>

theorem finalize_parts_sorted_complete:
  assumes "PostFile payload \<in> set (fst (uploadFile L u env filePath destDir))"
    and "numParts (f_size env) (partSize u) = Some n"
  shows "sorted (map PartNo (Parts payload)) \<and>
         ((\<forall>i. 0 \<le> i \<and> i < n \<longrightarrow> out_PartNo (p_out (f_parts env i)) = i + 1)
            \<longrightarrow> map PartNo (Parts payload) = [1..n])"
proof -
  define ups where "ups = uploadedParts env
      (partRuns u env (Base L filePath) (sessionPath L (Base L filePath) destDir (f_size env)) (f_size env) n)"
  define mk :: "UploadPartOut \<Rightarrow> Part"
    where "mk = (\<lambda>uploadPart. \<lparr>ID = out_PartId uploadPart, PartNo = out_PartNo uploadPart\<rparr>)"
  from uploadFile_PostFile [OF assms(1)] assms(2)
  have len: "int (length ups) = n" and p: "Parts payload = sort_key PartNo (map mk ups)"
    by (auto simp: ups_def mk_def)
  have s: "sorted (map PartNo (Parts payload))"
    unfolding p by (rule sorted_sort_key)
  have "map PartNo (Parts payload) = [1..n]"
    if echo: "\<forall>i. 0 \<le> i \<and> i < n \<longrightarrow> out_PartNo (p_out (f_parts env i)) = i + 1"
  proof -
    have "mset (map PartNo (Parts payload)) = mset (map out_PartNo ups)"
      unfolding p by (simp add: mk_def comp_def multiset.map_comp)
    also have "\<dots> = image_mset out_PartNo (mset (map (\<lambda>i. p_out (f_parts env i)) [0..n - 1]))"
      using uploadedParts_complete [OF len [unfolded ups_def]] by (simp add: ups_def)
    also have "\<dots> = mset (map (\<lambda>i. out_PartNo (p_out (f_parts env i))) [0..n - 1])"
      by (simp add: comp_def multiset.map_comp)
    also have "map (\<lambda>i. out_PartNo (p_out (f_parts env i))) [0..n - 1] = map (\<lambda>i. i + 1) [0..n - 1]"
      using echo by simp
    finally have m: "mset (map PartNo (Parts payload)) = mset [1..n]"
      by (simp add: map_Suc_upto)
    have "sort [1..n] = map PartNo (Parts payload)"
      using m s by (rule properties_for_sort)
    moreover have "sort [1..n] = [1..n]"
      by (rule properties_for_sort) simp_all
    ultimately show ?thesis by simp
  qed
  with s show ?thesis by simp
qed

theorem finalize_parts_sorted_complete_witness:
  "PostFile ex_payload \<in> set (fst (uploadFile ex_lib ex_uploader (ex_file (\<lambda>i. Response 200 None)) ''/src/big.bin'' ''/dst''))
   \<and> sorted (map PartNo (Parts ex_payload))
   \<and> map PartNo (Parts ex_payload) = [1, 2, 3]"
proof -
  have m: "PostFile ex_payload \<in> set (fst (uploadFile ex_lib ex_uploader (ex_file (\<lambda>i. Response 200 None)) ''/src/big.bin'' ''/dst''))"
    by (simp add: ex_run_ok)
  have n: "numParts (f_size (ex_file (\<lambda>i. Response 200 None))) (partSize ex_uploader) = Some 3"
    by (simp add: ex_file_def ex_uploader_def ex_numParts)
  have echo: "\<forall>i. 0 \<le> i \<and> i < 3 \<longrightarrow> out_PartNo (p_out (f_parts (ex_file (\<lambda>i. Response 200 None)) i)) = i + 1"
    by (simp add: ex_file_def ex_part_def)
  have u: "[1..3] = [1, 2, 3 :: int]" by code_simp
  show ?thesis
    using finalize_parts_sorted_complete [OF m n] echo m u by simp
qed

lemma decVal_snoc: "decVal (xs @ [c]) = 10 * decVal xs + digitVal c"
  by (simp add: decVal_def)

lemma digitVal_char_of: "d < 10 \<Longrightarrow> digitVal (char_of (48 + d)) = int d"
  by (simp add: digitVal_def)

lemma decVal_digits10: "decVal (digits10 n) = int n"
proof (induction n rule: digits10.induct)
  case (1 n)
  show ?case
  proof (cases "n < 10")
    case True
    then show ?thesis
      by (subst digits10.simps) (simp add: decVal_def digitVal_char_of)
  next
    case False
    have "decVal (digits10 n) = 10 * decVal (digits10 (n div 10)) + digitVal (char_of (48 + n mod 10))"
      using False by (subst digits10.simps) (simp add: decVal_snoc)
    also have "\<dots> = 10 * int (n div 10) + int (n mod 10)"
      using "1.IH" False by (simp add: digitVal_char_of)
    also have "\<dots> = int n" by (simp add: zdiv_int zmod_int)
    finally show ?thesis .
  qed
qed

lemma decVal_FormatInt: "0 \<le> k \<Longrightarrow> decVal (FormatInt k) = k"
  by (simp add: FormatInt_def decVal_digits10)

lemma Sprintf_03d_pad:
  "0 \<le> k \<Longrightarrow> Sprintf_03d k = replicate (3 - length (FormatInt k)) CHR ''0'' @ FormatInt k"
  by (simp add: Sprintf_03d_def FormatInt_def)

text \<open>
  Claim C9. Every part upload request of \<^verbatim>\<open>uploadFile\<close> belongs to a part index \<open>i\<close> with
  \<open>0 \<le> i < numParts\<close>; its \<^verbatim>\<open>fileName\<close> is the file name when \<open>numParts = 1\<close> and otherwise the
  file name followed by \<^verbatim>\<open>.part.\<close> and the decimal numeral of \<open>i + 1\<close> padded with zeros to three
  digits; its \<^verbatim>\<open>partNo\<close> is the decimal numeral of \<open>i + 1\<close> and its \<^verbatim>\<open>totalparts\<close> that of
  \<open>numParts\<close>.
\<close>

theorem part_upload_parameters:
  assumes "PostPart url params len \<in> set (fst (uploadFile L u env filePath destDir))"
    and "numParts (f_size env) (partSize u) = Some n"
  shows "\<exists>i. 0 \<le> i \<and> i < n \<and>
           params =
             [(''fileName'',
                 if n = 1 then Base L filePath
                 else Base L filePath @ ''.part.''
                        @ replicate (3 - length (FormatInt (i + 1))) CHR ''0'' @ FormatInt (i + 1)),
              (''partNo'', FormatInt (i + 1)),
              (''totalparts'', FormatInt n),
              (''channelId'', FormatInt (channelID u))] \<and>
           decVal (FormatInt (i + 1)) = i + 1 \<and> decVal (FormatInt n) = n"
proof -
  from uploadFile_PostPart [OF assms(1)] assms(2)
  have "PostPart url params len \<in> set (partEvents
          (partRuns u env (Base L filePath) (sessionPath L (Base L filePath) destDir (f_size env))
             (f_size env) n))"
    by simp
  from partRuns_events [OF this] obtain i where i: "0 \<le> i" "i < n"
    and ev: "PostPart url params len \<in> set (fst (uploadPart u env (Base L filePath)
               (sessionPath L (Base L filePath) destDir (f_size env)) (f_size env) n i))"
    by blast
  have "is_int64 n" using assms(2) by (rule numParts_range)
  with i have "is_int64 (i + 1)" by (simp add: is_int64_def)
  then have w: "wrap64 (i + 1) = i + 1" by (rule wrap64_id)
  have n1: "(1 < n) = (n \<noteq> 1)" using i by auto
  from uploadPart_events [OF ev] have
    "params =
       [(''fileName'', if n = 1 then Base L filePath
                       else Base L filePath @ ''.part.'' @ Sprintf_03d (i + 1)),
        (''partNo'', FormatInt (i + 1)),
        (''totalparts'', FormatInt n),
        (''channelId'', FormatInt (channelID u))]"
    by (auto simp: w n1)
  moreover have "Sprintf_03d (i + 1) = replicate (3 - length (FormatInt (i + 1))) CHR ''0'' @ FormatInt (i + 1)"
    using i by (intro Sprintf_03d_pad) simp
  moreover have "decVal (FormatInt (i + 1)) = i + 1" "decVal (FormatInt n) = n"
    using i by (simp_all add: decVal_FormatInt)
  ultimately show ?thesis using i by auto
qed

theorem part_upload_parameters_witness:
  "PostPart ''/api/uploads/0f''
      [(''fileName'', ''big.bin.part.002''), (''partNo'', ''2''), (''totalparts'', ''3''), (''channelId'', ''7'')] 1000
     \<in> set (fst (uploadFile ex_lib ex_uploader (ex_file (\<lambda>i. Response 200 None)) ''/src/big.bin'' ''/dst''))
   \<and> (\<exists>i. 0 \<le> i \<and> i < 3 \<and> ''2'' = FormatInt (i + 1) \<and> decVal (FormatInt (i + 1)) = i + 1
          \<and> ''big.bin.part.002'' = ''big.bin'' @ ''.part.''
                @ replicate (3 - length (FormatInt (i + 1))) CHR ''0'' @ FormatInt (i + 1))"
proof -
  have m: "PostPart ''/api/uploads/0f''
      [(''fileName'', ''big.bin.part.002''), (''partNo'', ''2''), (''totalparts'', ''3''), (''channelId'', ''7'')] 1000
     \<in> set (fst (uploadFile ex_lib ex_uploader (ex_file (\<lambda>i. Response 200 None)) ''/src/big.bin'' ''/dst''))"
    by (simp add: ex_run_ok)
  have n: "numParts (f_size (ex_file (\<lambda>i. Response 200 None))) (partSize ex_uploader) = Some 3"
    by (simp add: ex_file_def ex_uploader_def ex_numParts)
  have b: "Base ex_lib ''/src/big.bin'' = ''big.bin''" by code_simp
  from part_upload_parameters [OF m n] obtain i where
    "0 \<le> i" "i < 3" "''2'' = FormatInt (i + 1)" "decVal (FormatInt (i + 1)) = i + 1"
    "''big.bin.part.002'' = ''big.bin'' @ ''.part.''
        @ replicate (3 - length (FormatInt (i + 1))) CHR ''0'' @ FormatInt (i + 1)"
    by (auto simp: b)
  with m show ?thesis by blast
qed

subsection \<open>The directory walk\<close>

lemma checkFileExists_iff: "checkFileExists name files = (name \<in> fi_Name ` set files)"
  by (induction files) auto

lemma walk_entries_skip:
  "checkFileExists name files \<Longrightarrow>
   walk_entries L u src dest files (FileEntry name fenv # es) =
     (LogInfo (''file exists: '' @ name) # fst (walk_entries L u src dest files es),
      snd (walk_entries L u src dest files es))"
  by (simp add: case_prod_beta)

lemma walk_entries_filter:
  "requests (walk_entries L u src dest files es) =
   requests (walk_entries L u src dest files (filter (\<lambda>e. \<not> exists_remotely files e) es))"
proof (induction es)
  case Nil
  show ?case by simp
next
  case (Cons e es)
  show ?case
  proof (cases e)
    case (FileEntry name fenv)
    show ?thesis
    proof (cases "checkFileExists name files")
      case True
      then show ?thesis
        using Cons.IH
        by (simp add: FileEntry exists_remotely_def requests_def is_request_def case_prod_beta)
    next
      case False
      obtain evs r where up: "uploadFile L u fenv (Join L src name) dest = (evs, r)"
        by (cases "uploadFile L u fenv (Join L src name) dest")
      show ?thesis
        using Cons.IH False up
        by (cases r) (auto simp: FileEntry exists_remotely_def requests_def case_prod_beta is_request_def split: option.splits)
    qed
  next
    case (DirEntry name denv sub)
    obtain evs r where sub: "uploadFilesInDirectory L u (Join L src name)
        (ReplaceAll_backslash (Join L dest name)) denv sub = (evs, r)"
      by (cases "uploadFilesInDirectory L u (Join L src name) (ReplaceAll_backslash (Join L dest name)) denv sub")
    show ?thesis
      using Cons.IH sub
      by (cases r; cases "d_mkdir denv")
         (auto simp: DirEntry exists_remotely_def requests_def createRemoteDir_def Let_def
               case_prod_beta is_request_def)
  qed
qed

lemma uploadFilesInDirectory_filter:
  "requests (uploadFilesInDirectory L u src dest denv es) =
   requests (uploadFilesInDirectory L u src dest denv
      (filter (\<lambda>e. \<not> exists_remotely (remote_listing dest denv) e) es))"
proof -
  obtain evs r where l: "list_files (ReplaceAll_backslash dest) (d_pages denv) = (evs, r)"
    by (cases "list_files (ReplaceAll_backslash dest) (d_pages denv)")
  show ?thesis
  proof (cases "\<exists>files. d_readdir denv = None \<and> r = Returned (Inr files)")
    case True
    then obtain files where f: "d_readdir denv = None" "r = Returned (Inr files)" by blast
    have rl: "remote_listing dest denv = files"
      by (simp add: remote_listing_def l f)
    show ?thesis
      using walk_entries_filter [of L u src "ReplaceAll_backslash dest" files es]
      by (simp add: l f rl requests_def case_prod_beta)
  next
    case False
    then show ?thesis
      by (cases "d_readdir denv"; cases r)
         (auto simp: l requests_def split: sum.splits)
  qed
qed

lemma FormatInt_500: "FormatInt 500 = ''500''"
  by code_simp

lemma list_loop_pages:
  assumes "\<forall>p \<in> set pages. NextPageToken p \<noteq> []" and "NextPageToken last_page = []"
  shows "list_loop path (map (Pair (Response 200 None)) (pages @ [last_page]) @ rest) tok acc =
           (map (\<lambda>t. GetFiles ''/api/files''
                    [(''path'', path), (''perPage'', ''500''), (''sort'', ''name''),
                     (''order'', ''asc''), (''op'', ''list''), (''nextPageToken'', t)])
                (tok # map NextPageToken pages),
            Returned (Inr (acc @ concat (map Files (pages @ [last_page])))))"
  using assms
  by (induction pages arbitrary: tok acc)
     (simp_all add: readMetaDataForPath_def FormatInt_500)

text \<open>
  Claim C7. A file entry whose name is in the listing contributes one log line and no request;
  hence a walk of a directory issues the same requests, with the same outcome, as a walk of the
  directory without the file entries whose names are in its remote listing. That listing is
  fetched once, in pages of 500, each request carrying the token of the page before, until a
  page comes with an empty token, and it holds the files of all pages.
\<close>

theorem existing_files_not_uploaded:
  "(checkFileExists name files \<longrightarrow>
      walk_entries L u src dest files (FileEntry name fenv # es) =
        (LogInfo (''file exists: '' @ name) # fst (walk_entries L u src dest files es),
         snd (walk_entries L u src dest files es)))
   \<and> requests (uploadFilesInDirectory L u src dest denv entries) =
       requests (uploadFilesInDirectory L u src dest denv
         (filter (\<lambda>e. \<not> exists_remotely (remote_listing dest denv) e) entries))
   \<and> ((\<forall>p \<in> set pages. NextPageToken p \<noteq> []) \<and> NextPageToken last_page = [] \<longrightarrow>
        list_files path (map (Pair (Response 200 None)) (pages @ [last_page])) =
          (map (\<lambda>t. GetFiles ''/api/files''
                    [(''path'', path), (''perPage'', ''500''), (''sort'', ''name''),
                     (''order'', ''asc''), (''op'', ''list''), (''nextPageToken'', t)])
               ([] # map NextPageToken pages),
           Returned (Inr (concat (map Files (pages @ [last_page]))))))"
  using walk_entries_skip [of name files L u src dest fenv es]
    uploadFilesInDirectory_filter [of L u src dest denv entries]
    list_loop_pages [of pages last_page path "[]" "[]" "[]"]
  by (simp add: list_files_def)

theorem existing_files_not_uploaded_witness:
  "requests (uploadFilesInDirectory ex_lib ex_uploader ''/src'' ''/dst'' ex_dir
       [FileEntry ''old.bin'' (ex_file (\<lambda>i. Response 200 None))])
     = ([ex_get [], ex_get ''t1''], Returned None)
   \<and> checkFileExists ''old.bin'' (remote_listing ''/dst'' ex_dir)
   \<and> walk_entries ex_lib ex_uploader ''/src'' ''/dst'' [ex_info ''a.bin'', ex_info ''old.bin'']
       [FileEntry ''old.bin'' (ex_file (\<lambda>i. Response 200 None))]
     = ([LogInfo ''file exists: old.bin''], Returned None)
   \<and> list_files ''/dst'' (d_pages ex_dir)
     = ([ex_get [], ex_get ''t1''], Returned (Inr [ex_info ''a.bin'', ex_info ''old.bin'']))"
proof -
  let ?entries = "[FileEntry ''old.bin'' (ex_file (\<lambda>i. Response 200 None))]"
  let ?p1 = "\<lparr>Files = [ex_info ''a.bin''], NextPageToken = ''t1''\<rparr>"
  let ?p2 = "\<lparr>Files = [ex_info ''old.bin''], NextPageToken = []\<rparr>"
  note t = existing_files_not_uploaded [where L = ex_lib and u = ex_uploader and src = "''/src''"
      and dest = "''/dst''" and denv = ex_dir and entries = ?entries
      and name = "''old.bin''" and files = "[ex_info ''a.bin'', ex_info ''old.bin'']"
      and fenv = "ex_file (\<lambda>i. Response 200 None)" and es = "[]"
      and pages = "[?p1]" and last_page = ?p2 and path = "''/dst''"]
  have r: "remote_listing ''/dst'' ex_dir = [ex_info ''a.bin'', ex_info ''old.bin'']"
    by code_simp
  have c: "checkFileExists ''old.bin'' [ex_info ''a.bin'', ex_info ''old.bin'']"
    by (simp add: ex_info_def)
  have e: "requests (uploadFilesInDirectory ex_lib ex_uploader ''/src'' ''/dst'' ex_dir [])
             = ([ex_get [], ex_get ''t1''], Returned None)"
    by code_simp
  have flt: "filter (\<lambda>e. \<not> exists_remotely (remote_listing ''/dst'' ex_dir) e) ?entries = []"
    by (simp add: r exists_remotely_def ex_info_def)
  have "requests (uploadFilesInDirectory ex_lib ex_uploader ''/src'' ''/dst'' ex_dir ?entries)
        = requests (uploadFilesInDirectory ex_lib ex_uploader ''/src'' ''/dst'' ex_dir
           (filter (\<lambda>e. \<not> exists_remotely (remote_listing ''/dst'' ex_dir) e) ?entries))"
    using t by (rule conjunct1 [OF conjunct2])
  then have first: "requests (uploadFilesInDirectory ex_lib ex_uploader ''/src'' ''/dst'' ex_dir ?entries)
        = ([ex_get [], ex_get ''t1''], Returned None)"
    by (simp only: flt e)
  have skip: "walk_entries ex_lib ex_uploader ''/src'' ''/dst'' [ex_info ''a.bin'', ex_info ''old.bin''] ?entries
        = ([LogInfo ''file exists: old.bin''], Returned None)"
    using conjunct1 [OF t] c by (simp del: walk_entries.simps(2)) 
  have pages: "list_files ''/dst'' (d_pages ex_dir)
     = ([ex_get [], ex_get ''t1''], Returned (Inr [ex_info ''a.bin'', ex_info ''old.bin'']))"
    using conjunct2 [OF conjunct2 [OF t]] by (simp add: ex_dir_def ex_get_def)
  from first skip pages c show ?thesis
    by (simp only: r simp_thms)
qed

text \<open>
  Claim C5, as amended. When the remote subdirectory cannot be created, the error is logged and
  the process exits: no later entry is visited. When the walk of a subdirectory returns (with an
  error, because the local directory cannot be read or the remote one cannot be listed, or
  without), the result is logged and the walk goes on with the next entry. When the upload of a
  file returns an error, it is logged and the walk goes on with the next entry.
\<close>

theorem walk_failures:
  "(d_mkdir denv = Some err \<longrightarrow>
      walk_entries L u src dest files (DirEntry name denv sub # es) =
        (fst (createRemoteDir (ReplaceAll_backslash (Join L dest name)) (Some err)) @ [LogFatal err],
         Exited))
   \<and> (d_mkdir denv = None \<and>
        uploadFilesInDirectory L u (Join L src name) (ReplaceAll_backslash (Join L dest name)) denv sub
          = (evs, Returned r) \<longrightarrow>
      walk_entries L u src dest files (DirEntry name denv sub # es) =
        (fst (createRemoteDir (ReplaceAll_backslash (Join L dest name)) None) @ evs
           @ [LogError [] r] @ fst (walk_entries L u src dest files es),
         snd (walk_entries L u src dest files es)))
   \<and> (\<not> checkFileExists fname files \<and>
        uploadFile L u fenv (Join L src fname) dest = (fevs, Returned (Some e)) \<longrightarrow>
      walk_entries L u src dest files (FileEntry fname fenv # es) =
        (fevs @ [LogError (''upload failed: '' @ fname) (Some e)] @ fst (walk_entries L u src dest files es),
         snd (walk_entries L u src dest files es)))"
  by (simp add: createRemoteDir_def Let_def case_prod_beta)

theorem walk_failures_witness:
  "walk_entries ex_lib ex_uploader ''/src'' ''/dst'' [ex_info ''old.bin'']
       [DirEntry ''sub'' ex_dir_mkdir_fails [], FileEntry ''old.bin'' (ex_file ex_answers_fail)]
     = ([MakeDir ''/dst/sub'', LogFatal (ErrMsg ''http error 403'')], Exited)
   \<and> walk_entries ex_lib ex_uploader ''/src'' ''/dst'' [ex_info ''old.bin'']
       [DirEntry ''sub'' ex_dir_unreadable [], FileEntry ''old.bin'' (ex_file ex_answers_fail)]
     = ([MakeDir ''/dst/sub'', LogError [] (Some (ErrMsg ''permission denied'')),
         LogInfo ''file exists: old.bin''], Returned None)
   \<and> walk_entries ex_lib ex_uploader ''/src'' ''/dst'' [ex_info ''old.bin'']
       [FileEntry ''big.bin'' (ex_file ex_answers_fail), FileEntry ''old.bin'' (ex_file ex_answers_fail)]
     = (fst (uploadFile ex_lib ex_uploader (ex_file ex_answers_fail) ''/src/big.bin'' ''/dst'')
          @ [LogError ''upload failed: big.bin'' (Some (ErrMsg ''upload failed: big.bin'')),
             LogInfo ''file exists: old.bin''],
        Returned None)"
proof -
  let ?files = "[ex_info ''old.bin'']"
  let ?rest = "[FileEntry ''old.bin'' (ex_file ex_answers_fail)]"
  have j: "Join ex_lib ''/src'' ''sub'' = ''/src/sub''" "Join ex_lib ''/dst'' ''sub'' = ''/dst/sub''"
    "Join ex_lib ''/src'' ''big.bin'' = ''/src/big.bin''"
    "ReplaceAll_backslash ''/dst/sub'' = ''/dst/sub''"
    by code_simp+
  have m: "fst (createRemoteDir ''/dst/sub'' x) = [MakeDir ''/dst/sub'']" for x
    by (simp add: createRemoteDir_def)
  have rest: "walk_entries ex_lib ex_uploader ''/src'' ''/dst'' ?files ?rest
                = ([LogInfo ''file exists: old.bin''], Returned None)"
    by (simp add: ex_info_def)
  have d: "uploadFilesInDirectory ex_lib ex_uploader ''/src/sub'' ''/dst/sub'' ex_dir_unreadable []
             = ([], Returned (Some (ErrMsg ''permission denied'')))"
    by (simp add: ex_dir_unreadable_def)
  have f: "uploadFile ex_lib ex_uploader (ex_file ex_answers_fail) ''/src/big.bin'' ''/dst''
             = (fst (uploadFile ex_lib ex_uploader (ex_file ex_answers_fail) ''/src/big.bin'' ''/dst''),
                Returned (Some (ErrMsg ''upload failed: big.bin'')))"
    by (simp add: ex_run_fail)
  have c: "\<not> checkFileExists ''big.bin'' ?files"
    by (simp add: ex_info_def)
  have s: "d_mkdir ex_dir_unreadable = None" "d_mkdir ex_dir_mkdir_fails = Some (ErrMsg ''http error 403'')"
    by (simp_all add: ex_dir_unreadable_def ex_dir_mkdir_fails_def)
  note w = walk_failures [where L = ex_lib and u = ex_uploader and src = "''/src''" and dest = "''/dst''"
      and files = ?files and name = "''sub''" and sub = "[]" and es = ?rest
      and fname = "''big.bin''" and fenv = "ex_file ex_answers_fail"
      and fevs = "fst (uploadFile ex_lib ex_uploader (ex_file ex_answers_fail) ''/src/big.bin'' ''/dst'')"
      and e = "ErrMsg ''upload failed: big.bin''"]
  have first: "walk_entries ex_lib ex_uploader ''/src'' ''/dst'' ?files (DirEntry ''sub'' ex_dir_mkdir_fails [] # ?rest)
     = ([MakeDir ''/dst/sub'', LogFatal (ErrMsg ''http error 403'')], Exited)"
    using w [where denv = ex_dir_mkdir_fails and err = "ErrMsg ''http error 403''"] s(2)
    by (simp only: j m) simp
  have second: "walk_entries ex_lib ex_uploader ''/src'' ''/dst'' ?files (DirEntry ''sub'' ex_dir_unreadable [] # ?rest)
     = ([MakeDir ''/dst/sub'', LogError [] (Some (ErrMsg ''permission denied'')),
         LogInfo ''file exists: old.bin''], Returned None)"
    using w [where denv = ex_dir_unreadable and evs = "[]" and r = "Some (ErrMsg ''permission denied'')"]
      s(1) d
    by (simp only: j m rest) simp
  have third: "walk_entries ex_lib ex_uploader ''/src'' ''/dst'' ?files
       (FileEntry ''big.bin'' (ex_file ex_answers_fail) # ?rest)
     = (fst (uploadFile ex_lib ex_uploader (ex_file ex_answers_fail) ''/src/big.bin'' ''/dst'')
          @ [LogError ''upload failed: big.bin'' (Some (ErrMsg ''upload failed: big.bin'')),
             LogInfo ''file exists: old.bin''],
        Returned None)"
    using w [where denv = ex_dir_unreadable] c f
    by (simp only: j rest) simp
  from first second third show ?thesis by (simp only:) 
qed

text \<open>
  Claim C5 as stated fails: after a failed creation of a subdirectory the sibling file is not
  uploaded, the process has exited.
\<close>

theorem mkdir_failure_counterexample:
  "uploadFilesInDirectory ex_lib ex_uploader ''/src'' ''/dst'' ex_dir
       [DirEntry ''sub'' ex_dir_mkdir_fails [], FileEntry ''new.bin'' (ex_file (\<lambda>i. Response 200 None))]
     = ([ex_get [], ex_get ''t1'', MakeDir ''/dst/sub'', LogFatal (ErrMsg ''http error 403'')], Exited)"
  by code_simp

end
